theory Spec2Isabelle
  imports Complex_Main
begin

section \<open>Python and numpy values\<close>

text \<open>
  The diversity agent (\<^verbatim>\<open>agents/diversity.py\<close>) is one closure,
  \<^verbatim>\<open>diversity_agent_node\<close>, built by \<^verbatim>\<open>create_llm_diversity_agent(llm, max_retries=10)\<close>.
  It reads a state dictionary, renders two prompts, asks the language model up to
  \<^verbatim>\<open>max_retries\<close> times for a list of edited candidates, and returns the state merged
  with the new pool or, when no reply validates, with the unchanged parent pool.

  A float64 is a real number or NaN; rounding and the infinities are not represented.
  A numpy array is its shape and its elements in row-major order, as numpy stores it.
  Strings are byte strings (UTF-8); where Python counts characters, the bytes are grouped
  into code points.
\<close>

datatype npfloat = Num real | NaN

record ndarray =
  shape :: "nat list"
  data :: "npfloat list"

text \<open>
  The values \<^verbatim>\<open>ast.literal_eval\<close> can build (complex numbers and \<^verbatim>\<open>Ellipsis\<close>
  left out), and numpy arrays, which only the caller's state holds. A dict is the list of
  its items in insertion order, with distinct keys; a set is the list of its elements in
  the order its iteration gives them.
\<close>

datatype pyval =
    PNone
  | PBool bool
  | PInt int
  | PFloat npfloat
  | PStr string
  | PBytes string
  | PList "pyval list"
  | PTuple "pyval list"
  | PDict "(pyval \<times> pyval) list"
  | PSet "pyval list"
  | PArray ndarray

text \<open>The exceptions, by class; \<open>OtherError\<close> carries the name of any other class.\<close>

datatype error =
    KeyError string
  | AttributeError
  | IndexError
  | TypeError
  | ValueError
  | OverflowError
  | UnicodeEncodeError
  | OtherError string

type_synonym state = "string \<rightharpoonup> pyval"

text \<open>
  What the agent calls and this repository's sources do not hold: the Python built-ins,
  numpy's conversions, and the formatting helper \<^verbatim>\<open>arr2str\<close> of
  \<^verbatim>\<open>utils.NSGA_related\<close>. They are parameters of the model, functions of their
  arguments that return a value or the exception they raise:
  \<^item> \<open>str_strip\<close> is \<^verbatim>\<open>str.strip()\<close>;
  \<^item> \<open>literal_eval\<close> is \<^verbatim>\<open>ast.literal_eval\<close>, \<open>None\<close> when it raises (the caller catches
    every exception);
  \<^item> \<open>np_float\<close> is numpy's conversion of one Python scalar to float64;
  \<^item> \<open>np_asarray\<close> is the numeric array that the reductions \<^verbatim>\<open>np.std\<close>, \<^verbatim>\<open>np.min\<close> and
    \<^verbatim>\<open>np.max\<close> work on when their argument is not an array already, or the exception
    they raise on it;
  \<^item> \<open>py_str\<close> is \<^verbatim>\<open>str(value)\<close>, the text an f-string puts in place of
    \<^verbatim>\<open>{value}\<close> (Python refuses to print an integer of too many digits);
  \<^item> \<open>arr2str\<close> is \<^verbatim>\<open>arr2str(arr, decimals, max_rows)\<close>, \<open>None\<close> for an argument
    left to its default;
  \<^item> \<open>py_print\<close> is \<^verbatim>\<open>print(text)\<close>: \<open>None\<close> when the text is written, the exception
    when standard output cannot take it.
\<close>

record pylib =
  str_strip :: "string \<Rightarrow> string"
  literal_eval :: "string \<Rightarrow> pyval option"
  np_float :: "pyval \<Rightarrow> error + npfloat"
  np_asarray :: "pyval \<Rightarrow> error + ndarray"
  py_str :: "pyval \<Rightarrow> error + string"
  arr2str :: "pyval \<Rightarrow> int option \<Rightarrow> int option \<Rightarrow> error + string"
  py_print :: "string \<Rightarrow> error option"

text \<open>Sequencing of statements that may raise.\<close>

definition and_then :: "error + 'a \<Rightarrow> ('a \<Rightarrow> error + 'b) \<Rightarrow> error + 'b" where
  "and_then r f = (case r of Inl e \<Rightarrow> Inl e | Inr x \<Rightarrow> f x)"

fun collect :: "(error + 'a) list \<Rightarrow> error + 'a list" where
  "collect [] = Inr []"
| "collect (r # rs) =
     (case r of
        Inl e \<Rightarrow> Inl e
      | Inr x \<Rightarrow> (case collect rs of Inl e \<Rightarrow> Inl e | Inr xs \<Rightarrow> Inr (x # xs)))"

section \<open>The numpy operations the agent uses\<close>

text \<open>
  \<^verbatim>\<open>np.array(v, dtype=float)\<close>. numpy first finds the shape: a list or tuple is one more
  axis over its elements, which must all have the same shape; an array brings its own
  shape; any other value is a scalar. Elements that disagree in shape raise
  \<^verbatim>\<open>ValueError\<close>. Then the scalars are converted in order, and the first that numpy does
  not convert raises its exception.
\<close>

definition nested_shape :: "nat list option list \<Rightarrow> nat list option" where
  "nested_shape shapes =
     (case shapes of
        [] \<Rightarrow> Some [0]
      | first # rest \<Rightarrow>
          (case first of
             None \<Rightarrow> None
           | Some sh \<Rightarrow>
               if \<forall>other \<in> set rest. other = Some sh
               then Some (length shapes # sh) else None))"

fun seq_shape :: "pyval \<Rightarrow> nat list option" where
  "seq_shape (PList xs) = nested_shape (map seq_shape xs)"
| "seq_shape (PTuple xs) = nested_shape (map seq_shape xs)"
| "seq_shape (PArray a) = Some (shape a)"
| "seq_shape v = Some []"

fun flat_floats :: "pylib \<Rightarrow> pyval \<Rightarrow> error + npfloat list" where
  "flat_floats lib (PList xs) =
     and_then (collect (map (flat_floats lib) xs)) (\<lambda>parts. Inr (concat parts))"
| "flat_floats lib (PTuple xs) =
     and_then (collect (map (flat_floats lib) xs)) (\<lambda>parts. Inr (concat parts))"
| "flat_floats lib (PArray a) = Inr (data a)"
| "flat_floats lib v = and_then (np_float lib v) (\<lambda>x. Inr [x])"

definition np_array_float :: "pylib \<Rightarrow> pyval \<Rightarrow> error + ndarray" where
  "np_array_float lib v =
     (case seq_shape v of
        None \<Rightarrow> Inl ValueError
      | Some sh \<Rightarrow> and_then (flat_floats lib v) (\<lambda>xs. Inr \<lparr>shape = sh, data = xs\<rparr>))"

text \<open>
  \<^verbatim>\<open>np.vstack(arrs)\<close>: every array is first made at least two-dimensional, then they are
  joined along the first axis; an empty list raises, and so do arrays whose other axes
  differ.
\<close>

definition atleast_2d :: "ndarray \<Rightarrow> ndarray" where
  "atleast_2d a =
     (case shape a of
        [] \<Rightarrow> a\<lparr>shape := [1, 1]\<rparr>
      | [n] \<Rightarrow> a\<lparr>shape := [1, n]\<rparr>
      | _ \<Rightarrow> a)"

definition np_vstack :: "ndarray list \<Rightarrow> error + ndarray" where
  "np_vstack arrs =
     (case map atleast_2d arrs of
        [] \<Rightarrow> Inl ValueError
      | a # rest \<Rightarrow>
          if \<forall>b \<in> set rest. tl (shape b) = tl (shape a)
          then Inr \<lparr>shape = sum_list (map (\<lambda>b. hd (shape b)) (a # rest)) # tl (shape a),
                    data = concat (map data (a # rest))\<rparr>
          else Inl ValueError)"

text \<open>
  \<^verbatim>\<open>np.std(a, axis=0)\<close> with numpy's default \<^verbatim>\<open>ddof=0\<close>: the square root of the mean of
  the squared distances to the mean, taken down the first axis. A NaN among the values, or
  no value at all, gives NaN. An array without axes has no axis 0. An argument that is
  not an array is handed to numpy's own conversion.
\<close>

fun reals_of :: "npfloat list \<Rightarrow> real list option" where
  "reals_of [] = Some []"
| "reals_of (NaN # xs) = None"
| "reals_of (Num r # xs) = map_option ((#) r) (reals_of xs)"

definition np_mean :: "real list \<Rightarrow> real" where
  "np_mean rs = sum_list rs / real (length rs)"

definition np_std_1d :: "npfloat list \<Rightarrow> npfloat" where
  "np_std_1d xs =
     (if xs = [] then NaN
      else case reals_of xs of
             None \<Rightarrow> NaN
           | Some rs \<Rightarrow> Num (sqrt (np_mean (map (\<lambda>r. \<bar>r - np_mean rs\<bar> ^ 2) rs))))"

definition np_std_axis0 :: "ndarray \<Rightarrow> error + ndarray" where
  "np_std_axis0 a =
     (case shape a of
        [] \<Rightarrow> Inl ValueError
      | r # rest \<Rightarrow>
          let m = prod_list rest
          in Inr \<lparr>shape = rest,
                  data = map (\<lambda>j. np_std_1d (map (\<lambda>k. data a ! (k * m + j)) [0..<r])) [0..<m]\<rparr>)"

definition as_numeric :: "pylib \<Rightarrow> pyval \<Rightarrow> error + ndarray" where
  "as_numeric lib v = (case v of PArray a \<Rightarrow> Inr a | _ \<Rightarrow> np_asarray lib v)"

definition np_std :: "pylib \<Rightarrow> pyval \<Rightarrow> error + ndarray" where
  "np_std lib v = and_then (as_numeric lib v) np_std_axis0"

text \<open>\<^verbatim>\<open>np.min\<close> and \<^verbatim>\<open>np.max\<close> over all elements; NaN wins, and an empty array raises.\<close>

fun np_minimum :: "npfloat \<Rightarrow> npfloat \<Rightarrow> npfloat" where
  "np_minimum (Num a) (Num b) = Num (min a b)"
| "np_minimum _ _ = NaN"

fun np_maximum :: "npfloat \<Rightarrow> npfloat \<Rightarrow> npfloat" where
  "np_maximum (Num a) (Num b) = Num (max a b)"
| "np_maximum _ _ = NaN"

definition np_min :: "pylib \<Rightarrow> pyval \<Rightarrow> error + npfloat" where
  "np_min lib v =
     and_then (as_numeric lib v)
       (\<lambda>a. case data a of [] \<Rightarrow> Inl ValueError | x # xs \<Rightarrow> Inr (foldl np_minimum x xs))"

definition np_max :: "pylib \<Rightarrow> pyval \<Rightarrow> error + npfloat" where
  "np_max lib v =
     and_then (as_numeric lib v)
       (\<lambda>a. case data a of [] \<Rightarrow> Inl ValueError | x # xs \<Rightarrow> Inr (foldl np_maximum x xs))"

section \<open>Reading the state\<close>

text \<open>\<^verbatim>\<open>state[key]\<close> and \<^verbatim>\<open>state.get(key, default)\<close>.\<close>

definition getitem :: "state \<Rightarrow> string \<Rightarrow> error + pyval" where
  "getitem st key = (case st key of None \<Rightarrow> Inl (KeyError key) | Some v \<Rightarrow> Inr v)"

definition get_default :: "state \<Rightarrow> string \<Rightarrow> pyval \<Rightarrow> pyval" where
  "get_default st key d = (case st key of None \<Rightarrow> d | Some v \<Rightarrow> v)"

text \<open>\<^verbatim>\<open>d[key]\<close> for a string key on a value that should be a dict.\<close>

definition dict_getitem :: "pyval \<Rightarrow> string \<Rightarrow> error + pyval" where
  "dict_getitem d key =
     (case d of
        PDict kvs \<Rightarrow> (case map_of kvs (PStr key) of None \<Rightarrow> Inl (KeyError key) | Some v \<Rightarrow> Inr v)
      | _ \<Rightarrow> Inl TypeError)"

text \<open>\<^verbatim>\<open>x.shape[i]\<close>: only arrays have a shape.\<close>

definition shape_at :: "pyval \<Rightarrow> nat \<Rightarrow> error + nat" where
  "shape_at x i =
     (case x of
        PArray a \<Rightarrow> if i < length (shape a) then Inr (shape a ! i) else Inl IndexError
      | _ \<Rightarrow> Inl AttributeError)"

text \<open>
  \<^verbatim>\<open>x[-most_recent:]\<close>. The start of a slice counts from the end when it is negative and is
  clipped to the sequence; \<^verbatim>\<open>-0\<close> is \<^verbatim>\<open>0\<close>, the start of the sequence. An array is
  sliced along its first axis, a string by characters.
\<close>

definition is_continuation :: "char \<Rightarrow> bool" where
  "is_continuation c = ((of_char c :: nat) div 64 = 2)"

function utf8_chars :: "string \<Rightarrow> string list" where
  "utf8_chars [] = []"
| "utf8_chars (c # cs) =
     (c # takeWhile is_continuation cs) # utf8_chars (dropWhile is_continuation cs)"
  by pat_completeness auto
termination
  by (relation "measure length") (auto simp: length_dropWhile_le less_Suc_eq_le)

definition neg_index :: "pyval \<Rightarrow> error + int" where
  "neg_index v =
     (case v of
        PInt k \<Rightarrow> Inr (- k)
      | PBool b \<Rightarrow> Inr (- (if b then 1 else 0))
      | _ \<Rightarrow> Inl TypeError)"

definition slice_start :: "int \<Rightarrow> nat \<Rightarrow> nat" where
  "slice_start start len =
     (if start < 0 then nat (max (int len + start) 0) else min (nat start) len)"

definition slice_from :: "int \<Rightarrow> pyval \<Rightarrow> error + pyval" where
  "slice_from start x =
     (case x of
        PArray a \<Rightarrow>
          (case shape a of
             [] \<Rightarrow> Inl IndexError
           | r # rest \<Rightarrow>
               let s = slice_start start r
               in Inr (PArray \<lparr>shape = (r - s) # rest, data = drop (s * prod_list rest) (data a)\<rparr>))
      | PList xs \<Rightarrow> Inr (PList (drop (slice_start start (length xs)) xs))
      | PTuple xs \<Rightarrow> Inr (PTuple (drop (slice_start start (length xs)) xs))
      | PStr cs \<Rightarrow>
          Inr (PStr (concat (drop (slice_start start (length (utf8_chars cs))) (utf8_chars cs))))
      | PBytes cs \<Rightarrow> Inr (PBytes (drop (slice_start start (length cs)) cs))
      | _ \<Rightarrow> Inl TypeError)"

text \<open>
  \<^verbatim>\<open>lower, upper = bounds\<close>: the value is iterated and must give exactly two elements.
  A dict gives its keys, a string its characters, bytes their codes, an array its
  sub-arrays along the first axis; \<^verbatim>\<open>None\<close>, booleans and numbers cannot be iterated.
\<close>

definition py_iter :: "pyval \<Rightarrow> error + pyval list" where
  "py_iter v =
     (case v of
        PList xs \<Rightarrow> Inr xs
      | PTuple xs \<Rightarrow> Inr xs
      | PSet xs \<Rightarrow> Inr xs
      | PDict kvs \<Rightarrow> Inr (map fst kvs)
      | PStr cs \<Rightarrow> Inr (map PStr (utf8_chars cs))
      | PBytes cs \<Rightarrow> Inr (map (\<lambda>c. PInt (int (of_char c :: nat))) cs)
      | PArray a \<Rightarrow>
          (case shape a of
             [] \<Rightarrow> Inl TypeError
           | r # rest \<Rightarrow>
               let m = prod_list rest
               in Inr (map (\<lambda>i. PArray \<lparr>shape = rest, data = take m (drop (i * m) (data a))\<rparr>)
                         [0..<r]))
      | _ \<Rightarrow> Inl TypeError)"

definition unpack_pair :: "pyval \<Rightarrow> error + pyval \<times> pyval" where
  "unpack_pair v =
     and_then (py_iter v) (\<lambda>xs. case xs of [a, b] \<Rightarrow> Inr (a, b) | _ \<Rightarrow> Inl ValueError)"

section \<open>The schema check of one reply\<close>

text \<open>
  The body of the \<^verbatim>\<open>try\<close> block: the value of \<^verbatim>\<open>sets\<close> after it. Any exception, and any
  reply that is not a list of \<^verbatim>\<open>pool_size\<close> dicts with both keys and a \<^verbatim>\<open>values\<close> list,
  tuple or array of length \<^verbatim>\<open>n_vars\<close>, leaves \<^verbatim>\<open>None\<close>. (\<^verbatim>\<open>len\<close> of an array without
  axes raises, which the \<^verbatim>\<open>except\<close> clause turns into \<^verbatim>\<open>None\<close> as well.)
\<close>

definition py_len :: "pyval \<Rightarrow> nat option" where
  "py_len v =
     (case v of
        PList xs \<Rightarrow> Some (length xs)
      | PTuple xs \<Rightarrow> Some (length xs)
      | PArray a \<Rightarrow> (case shape a of [] \<Rightarrow> None | r # _ \<Rightarrow> Some r)
      | _ \<Rightarrow> None)"

definition is_array_like :: "pyval \<Rightarrow> bool" where
  "is_array_like v = (case v of PList _ \<Rightarrow> True | PTuple _ \<Rightarrow> True | PArray _ \<Rightarrow> True | _ \<Rightarrow> False)"

definition item_valid :: "nat \<Rightarrow> pyval \<Rightarrow> bool" where
  "item_valid n_vars item =
     (case item of
        PDict kvs \<Rightarrow>
          (case map_of kvs (PStr ''values'') of
             None \<Rightarrow> False
           | Some v \<Rightarrow>
               map_of kvs (PStr ''rationale'') \<noteq> None
               \<and> is_array_like v
               \<and> py_len v = Some n_vars)
      | _ \<Rightarrow> False)"

definition parse_sets :: "pylib \<Rightarrow> nat \<Rightarrow> nat \<Rightarrow> string \<Rightarrow> pyval list option" where
  "parse_sets lib pool_size n_vars result =
     (case literal_eval lib (str_strip lib result) of
        None \<Rightarrow> None
      | Some v \<Rightarrow>
          (case v of
             PList items \<Rightarrow>
               if list_all (item_valid n_vars) items \<and> length items = pool_size
               then Some items else None
           | _ \<Rightarrow> None))"

section \<open>The local variables and the two prompts\<close>

text \<open>
  The local variables of \<^verbatim>\<open>diversity_agent_node\<close> that the prompts and the retry loop read,
  as lines 15 to 39 compute them. \<open>all_para\<close> is the history after the slice, and
  \<open>param_diversity\<close> its standard deviation down the rows.
\<close>

record node_vars =
  parent_pool :: pyval
  parent_objectives :: pyval
  most_recent :: pyval
  all_para :: pyval
  n_vars :: nat
  n_objs :: nat
  bounds_str :: string
  budget :: pyval
  pool_size :: nat
  param_diversity :: ndarray
  param_param_corr :: pyval
  param_obj_corr :: pyval
  pca_loadings :: pyval
  pca_explained_variance :: pyval

definition render_bounds :: "pylib \<Rightarrow> pyval \<Rightarrow> error + string" where
  "render_bounds lib bounds =
     (if bounds \<noteq> PNone
      then and_then (unpack_pair bounds) (\<lambda>(lower, upper).
           and_then (np_min lib lower) (\<lambda>lo.
           and_then (py_str lib (PFloat lo)) (\<lambda>lo_s.
           and_then (np_max lib upper) (\<lambda>hi.
           and_then (py_str lib (PFloat hi)) (\<lambda>hi_s.
           Inr (''['' @ lo_s @ '', '' @ hi_s @ '']''))))))
      else Inr ''[0, 1]'')"

definition read_state :: "pylib \<Rightarrow> state \<Rightarrow> error + node_vars" where
  "read_state lib st =
     and_then (getitem st ''parent_pool'') (\<lambda>pp.
     and_then (getitem st ''parent_objectives'') (\<lambda>po.
     let mr = get_default st ''most_recent'' (PInt 100) in
     and_then (neg_index mr) (\<lambda>start.
     and_then (slice_from start (get_default st ''all_para'' pp)) (\<lambda>ap.
     and_then (shape_at pp 1) (\<lambda>nv.
     and_then (shape_at po 1) (\<lambda>no.
     let bounds = get_default st ''bounds'' PNone;
         bud = get_default st ''budget'' (PInt 2) in
     and_then (render_bounds lib bounds) (\<lambda>bs.
     and_then (shape_at pp 0) (\<lambda>ps.
     and_then (np_std lib ap) (\<lambda>pd.
     and_then (and_then (getitem st ''summary'') (\<lambda>s. dict_getitem s ''param_param_corr'')) (\<lambda>ppc.
     and_then (and_then (getitem st ''summary'') (\<lambda>s. dict_getitem s ''param_obj_corr'')) (\<lambda>poc.
     and_then (and_then (getitem st ''summary'') (\<lambda>s. dict_getitem s ''pca_loadings'')) (\<lambda>pl.
     and_then (and_then (getitem st ''summary'') (\<lambda>s. dict_getitem s ''pca_explained_variance'')) (\<lambda>pev.
     Inr \<lparr>parent_pool = pp, parent_objectives = po, most_recent = mr, all_para = ap,
          n_vars = nv, n_objs = no, bounds_str = bs, budget = bud, pool_size = ps,
          param_diversity = pd, param_param_corr = ppc, param_obj_corr = poc,
          pca_loadings = pl, pca_explained_variance = pev\<rparr>)))))))))))))"

text \<open>The characters of the prompts outside ASCII, in UTF-8, and the single quote.\<close>

definition sigma :: string where "sigma = [CHR 0xCF, CHR 0x83]"
definition bullet :: string where "bullet = [CHR 0xE2, CHR 0x80, CHR 0xA2]"
definition arrow :: string where "arrow = [CHR 0xE2, CHR 0x86, CHR 0x92]"
definition en_dash :: string where "en_dash = [CHR 0xE2, CHR 0x80, CHR 0x93]"
definition em_dash :: string where "em_dash = [CHR 0xE2, CHR 0x80, CHR 0x94]"
definition quote :: string where "quote = [CHR 0x27]"

text \<open>
  \<^verbatim>\<open>str(n)\<close> for the numbers of a shape: the decimal digits, with a minus sign below zero.
  (These numbers are far below the length at which Python refuses to print an integer.)
\<close>

fun str_nat :: "nat \<Rightarrow> string" where
  "str_nat n =
     (if n < 10 then [char_of (48 + n)]
      else str_nat (n div 10) @ [char_of (48 + n mod 10)])"

declare str_nat.simps [simp del]

definition str_int :: "int \<Rightarrow> string" where
  "str_int i = (if i < 0 then ''-'' @ str_nat (nat (- i)) else str_nat (nat i))"

text \<open>The text that \<^verbatim>\<open>str\<close> or \<^verbatim>\<open>arr2str\<close> has made of a value, to be put in a prompt.\<close>

type_synonym rendering = string

text \<open>
  The system prompt of the first attempt (lines 42 to 78): first its text, given the
  formatted \<^verbatim>\<open>most_recent\<close> and \<^verbatim>\<open>budget\<close>; then the prompt itself, where formatting
  the two, in this order, may raise.
\<close>

definition system_text :: "node_vars \<Rightarrow> rendering \<Rightarrow> rendering \<Rightarrow> string" where
  "system_text l most_recent_s budget_s =
       ''System: You are a diversity agent for a multi-objective evolutionary algorithm.\<newline>''
       @ ''\<newline>''
       @ ''Your task:\<newline>''
       @ ''- make edits to the current sets in the pool that increase exploration while respecting bounds.\<newline>''
       @ ''- Focus on spreading values in parameters with low diversity and stabilizing those with very high diversity.\<newline>''
       @ ''- Avoid collapsing parameters to extremes (0 or max).\<newline>''
       @ ''\<newline>''
       @ ''Problem summary:\<newline>''
       @ ''- Each candidate has '' @ str_int (int (n_vars l)) @ '' parameters ('' @ sigma
           @ ''_k per dataset).\<newline>''
       @ ''- Each solution yields '' @ str_int (int (n_objs l))
           @ '' objectives (RMS errors e_k, lower is better).\<newline>''
       @ ''\<newline>''
       @ ''Provided data you can use:\<newline>''
       @ ''1) Full parent pool and objectives (current generation).\<newline>''
       @ ''2) The statistics for the most recent '' @ most_recent_s @ '' sets.\<newline>''
       @ ''   '' @ bullet
           @ '' Diversity scores per parameter computed from ALL candidates.\<newline>''
       @ ''   '' @ bullet @ '' Array of length n_vars (index i '' @ arrow @ '' '' @ sigma
           @ ''_i).\<newline>''
       @ ''   '' @ bullet @ '' Each score measures spread of '' @ sigma
           @ '' values across the full pool.\<newline>''
       @ ''   '' @ bullet @ '' Low score = values clustered '' @ arrow
           @ '' encourage exploration.\<newline>''
       @ ''   '' @ bullet @ '' High score = values spread '' @ arrow
           @ '' encourage refinement/stabilization.\<newline>''
       @ ''   '' @ bullet @ '' Use these scores to decide which '' @ sigma
           @ '' to perturb and by how much.\<newline>''
       @ ''3) Parameter'' @ en_dash
           @ ''parameter correlation (matrix) of the entire history pool.\<newline>''
       @ ''   '' @ bullet @ '' Positive correlation: '' @ sigma @ ''_i and '' @ sigma
           @ ''_j move together.\<newline>''
       @ ''   '' @ bullet @ '' Negative correlation: '' @ sigma @ ''_i and '' @ sigma
           @ ''_j trade off.\<newline>''
       @ ''   '' @ bullet
           @ '' Use to design consistent edits across correlated parameters.\<newline>''
       @ ''4) Parameter'' @ en_dash
           @ ''objective correlation of the entire history pool.\<newline>''
       @ ''   '' @ bullet @ '' How each '' @ sigma
           @ '' dimension influences each objective.\<newline>''
       @ ''5) PCA loadings + explained variance.\<newline>''
       @ ''   '' @ bullet
           @ '' Use early PCs (high variance) to guide exploration directions.\<newline>''
       @ ''6) Bounds reminder: all '' @ sigma @ '' must remain inside '' @ bounds_str l
           @ ''.\<newline>''
       @ ''7) Edit budget: at most '' @ budget_s
           @ '' parameters may be shifted in each new set.\<newline>''
       @ ''\<newline>''
       @ ''**Guidelines:**\<newline>''
       @ ''- Inject diversity by perturbing clustered parameters\<newline>''
       @ ''- Spread out solutions across unexplored parameter space.\<newline>''
       @ ''- Prioritize exploration over exploitation.\<newline>''
       @ ''\<newline>''
       @ ''Output format (STRICT):\<newline>''
       @ ''- Return a valid Python list of '' @ str_int (int (pool_size l))
           @ '' dicts.\<newline>''
       @ ''- Each dict must have '' @ quote @ ''values'' @ quote @ '' (a list of ''
           @ str_int (int (n_vars l)) @ '' floats) and '' @ quote @ ''rationale'' @ quote
           @ '' (short text).\<newline>''
       @ ''- The FIRST LINE of your reply must be ONLY that Python list'' @ em_dash
           @ ''no extra text.''"

definition initial_system_message :: "pylib \<Rightarrow> node_vars \<Rightarrow> error + string" where
  "initial_system_message lib l =
     and_then (py_str lib (most_recent l)) (\<lambda>most_recent_s.
     and_then (py_str lib (budget l)) (\<lambda>budget_s.
     Inr (system_text l most_recent_s budget_s)))"

text \<open>
  The user prompt (lines 81 to 104): first its text, given the seven rendered arrays and
  the formatted \<^verbatim>\<open>budget\<close>; then the prompt itself. The seven calls of \<^verbatim>\<open>arr2str\<close>
  come first, in the order of the text, then the formatting of \<^verbatim>\<open>budget\<close>; each may
  raise.
\<close>

definition user_text ::
  "node_vars \<Rightarrow> rendering \<Rightarrow> rendering \<Rightarrow> rendering \<Rightarrow> rendering \<Rightarrow> rendering
     \<Rightarrow> rendering \<Rightarrow> rendering \<Rightarrow> rendering \<Rightarrow> string" where
  "user_text l pool_s objectives_s diversity_s param_param_s param_obj_s loadings_s variance_s
     budget_s =
       ''\<newline>''
       @ ''==== Indexing & Semantics ====\<newline>''
       @ bullet @ '' Parameters: 0..'' @ str_int (int (n_vars l) - 1) @ '' ('' @ sigma
           @ ''_k per dataset).\<newline>''
       @ bullet @ '' Objectives: 0..'' @ str_int (int (n_objs l) - 1)
           @ '' (RMS error, lower = better).\<newline>''
       @ ''\<newline>''
       @ ''==== Current Parent Pool (parameters) ====\<newline>''
       @ pool_s
       @ ''\<newline>''
       @ ''\<newline>''
       @ ''==== Current Parent Objectives ====\<newline>''
       @ objectives_s
       @ ''\<newline>''
       @ ''\<newline>''
       @ ''==== Global Diversity per Parameter (from most recent candidates) ====\<newline>''
       @ diversity_s
       @ ''\<newline>''
       @ ''\<newline>''
       @ ''==== Param'' @ en_dash @ ''Param Correlation ====\<newline>''
       @ param_param_s
       @ ''\<newline>''
       @ ''\<newline>''
       @ ''==== Param'' @ en_dash @ ''Objective Correlation ====\<newline>''
       @ param_obj_s
       @ ''\<newline>''
       @ ''\<newline>''
       @ ''==== PCA Loadings + Explained Variance ====\<newline>''
       @ loadings_s
       @ ''\<newline>''
       @ variance_s
       @ ''\<newline>''
       @ ''\<newline>''
       @ ''Instructions:\<newline>''
       @ ''- Expand diversity in globally clustered parameters.\<newline>''
       @ ''- Stabilize extreme variation in globally high-diversity parameters.\<newline>''
       @ ''- Keep all '' @ sigma @ '' inside bounds.\<newline>''
       @ ''- Adjust at most '' @ budget_s @ '' parameters per set.\<newline>''
       @ ''- Output must cover all pool size (each dict corresponds to one candidate).\<newline>''"

definition user_msg :: "pylib \<Rightarrow> node_vars \<Rightarrow> error + string" where
  "user_msg lib l =
     and_then (arr2str lib (parent_pool l) (Some 3) (Some 20)) (\<lambda>pool_s.
     and_then (arr2str lib (parent_objectives l) (Some 3) (Some 20)) (\<lambda>objectives_s.
     and_then (arr2str lib (PArray (param_diversity l)) None None) (\<lambda>diversity_s.
     and_then (arr2str lib (param_param_corr l) None None) (\<lambda>param_param_s.
     and_then (arr2str lib (param_obj_corr l) None None) (\<lambda>param_obj_s.
     and_then (arr2str lib (pca_loadings l) None None) (\<lambda>loadings_s.
     and_then (arr2str lib (pca_explained_variance l) None None) (\<lambda>variance_s.
     and_then (py_str lib (budget l)) (\<lambda>budget_s.
     Inr (user_text l pool_s objectives_s diversity_s param_param_s param_obj_s loadings_s
            variance_s budget_s)))))))))"

text \<open>The notice appended to the system prompt after a reply that did not validate.\<close>

definition retry_warning :: "nat \<Rightarrow> nat \<Rightarrow> string" where
  "retry_warning pool_size_v n_vars_v =
     ''\<newline>''
     @ ''WARNING: Your previous output was NOT a valid Python list of ''
         @ str_int (int pool_size_v) @ '' dicts with '' @ quote @ ''values'' @ quote
         @ '' (length '' @ str_int (int n_vars_v) @ '') and '' @ quote @ ''rationale'' @ quote
         @ ''. The first line must be ONLY that Python list. Try again.''"

text \<open>
  Everything before the loop (lines 15 to 104): the local variables, the system prompt and
  the user prompt, or the first exception.
\<close>

definition prepare :: "pylib \<Rightarrow> state \<Rightarrow> error + node_vars \<times> string \<times> string" where
  "prepare lib st =
     and_then (read_state lib st) (\<lambda>l.
     and_then (initial_system_message lib l) (\<lambda>sys.
     and_then (user_msg lib l) (\<lambda>usr.
     Inr (l, sys, usr))))"

section \<open>The retry loop\<close>

text \<open>
  The language model is a function of its own state and of the messages it is sent, each a
  role and a content; it answers with a text and its next state. Every call is logged with
  what was sent and what came back, so that the calls of one run can be counted and
  compared.
\<close>

type_synonym message = "string \<times> string"

type_synonym 'o llm = "'o \<Rightarrow> message list \<Rightarrow> string \<times> 'o"

record invocation =
  sent :: "message list"
  reply :: string

text \<open>The variables the loop changes, with the model's state and the log of calls.\<close>

record 'o retry_state =
  system_message :: string
  sets :: "pyval list option"
  report_raw :: string
  tries :: int
  llm_state :: 'o
  calls :: "invocation list"

text \<open>One pass through the body of the \<^verbatim>\<open>while\<close> loop (lines 111 to 141).\<close>

definition attempt :: "pylib \<Rightarrow> 'o llm \<Rightarrow> nat \<Rightarrow> nat \<Rightarrow> string \<Rightarrow> 'o retry_state \<Rightarrow> 'o retry_state" where
  "attempt lib llm pool_size_v n_vars_v usr s =
     (let msgs = [(''system'', system_message s), (''user'', usr)];
          (result, llm_state') = llm (llm_state s) msgs;
          sets' = parse_sets lib pool_size_v n_vars_v result
      in \<lparr>system_message =
             (if sets' = None
              then system_message s @ retry_warning pool_size_v n_vars_v
              else system_message s),
           sets = sets',
           report_raw = result,
           tries = tries s + 1,
           llm_state = llm_state',
           calls = calls s @ [\<lparr>sent = msgs, reply = result\<rparr>]\<rparr>)"

function retry_loop ::
  "pylib \<Rightarrow> 'o llm \<Rightarrow> int \<Rightarrow> nat \<Rightarrow> nat \<Rightarrow> string \<Rightarrow> 'o retry_state \<Rightarrow> 'o retry_state" where
  "retry_loop lib llm max_retries pool_size_v n_vars_v usr s =
     (if sets s = None \<and> tries s < max_retries
      then retry_loop lib llm max_retries pool_size_v n_vars_v usr
             (attempt lib llm pool_size_v n_vars_v usr s)
      else s)"
  by pat_completeness auto
termination
  by (relation "measure (\<lambda>(lib, llm, max_retries, pool_size_v, n_vars_v, usr, s).
                          nat (max_retries - tries s))")
     (auto simp: attempt_def Let_def split: prod.splits)

section \<open>The agent\<close>

text \<open>
  What one call of \<^verbatim>\<open>diversity_agent_node(state)\<close> does: the state it returns or the
  exception it raises, the calls it made to the model, the model's state afterwards, and
  the lines it printed. Printing the notice of the fallback may itself raise.
\<close>

record 'o run =
  returned :: "error + state"
  invocations :: "invocation list"
  llm_after :: 'o
  printed :: "string list"

definition fallback_notice :: string where
  "fallback_notice =
     [CHR 0xE2, CHR 0x9A, CHR 0xA0, CHR 0xEF, CHR 0xB8, CHR 0x8F]
     @ '' LLM Diversity agent failed, returning unchanged pool.''"

text \<open>
  Lines 152 to 158: the arrays of the \<^verbatim>\<open>values\<close>, the texts of the \<^verbatim>\<open>rationale\<close>s (built
  and not used, but \<^verbatim>\<open>str\<close> may raise), and the state with the stacked arrays.
\<close>

definition assemble_pool :: "pylib \<Rightarrow> state \<Rightarrow> pyval list \<Rightarrow> error + state" where
  "assemble_pool lib st items =
     and_then (collect (map (\<lambda>item. and_then (dict_getitem item ''values'') (np_array_float lib))
                            items)) (\<lambda>arrs.
     and_then (collect (map (\<lambda>item. and_then (dict_getitem item ''rationale'') (py_str lib))
                            items)) (\<lambda>rationales.
     and_then (np_vstack arrs) (\<lambda>pool.
     Inr (st(''diverse_pool'' \<mapsto> PArray pool)))))"

text \<open>The loop variables before the first pass (lines 107 to 109).\<close>

definition retry_start :: "string \<Rightarrow> 'o \<Rightarrow> 'o retry_state" where
  "retry_start sys orc =
     \<lparr>system_message = sys, sets = None, report_raw = [],
      tries = 0, llm_state = orc, calls = []\<rparr>"

definition diversity_agent_node :: "pylib \<Rightarrow> 'o llm \<Rightarrow> int \<Rightarrow> 'o \<Rightarrow> state \<Rightarrow> 'o run" where
  "diversity_agent_node lib llm max_retries orc st =
     (case prepare lib st of
        Inl e \<Rightarrow> \<lparr>returned = Inl e, invocations = [], llm_after = orc, printed = []\<rparr>
      | Inr (l, sys, usr) \<Rightarrow>
          let s = retry_loop lib llm max_retries (pool_size l) (n_vars l) usr
                    (retry_start sys orc)
          in case sets s of
               None \<Rightarrow>
                 (case py_print lib fallback_notice of
                    Some e \<Rightarrow>
                      \<lparr>returned = Inl e, invocations = calls s, llm_after = llm_state s,
                       printed = []\<rparr>
                  | None \<Rightarrow>
                      \<lparr>returned = Inr (st(''diverse_pool'' \<mapsto> parent_pool l,
                                          ''rationales'' \<mapsto> PList [],
                                          ''diversity_report_raw'' \<mapsto> PStr (report_raw s))),
                       invocations = calls s, llm_after = llm_state s,
                       printed = [fallback_notice]\<rparr>)
             | Some items \<Rightarrow>
                 \<lparr>returned = assemble_pool lib st items,
                  invocations = calls s, llm_after = llm_state s, printed = []\<rparr>)"

text \<open>
  A model that keeps a record of its own: it answers as the given model does and notes,
  beside that model's state, the messages of every call it receives and its reply. What a
  run leaves in this record is what the model was really asked.
\<close>

definition recording :: "'o llm \<Rightarrow> (invocation list \<times> 'o) llm" where
  "recording llm seen_orc msgs =
     (let (result, orc') = llm (snd seen_orc) msgs
      in (result, (fst seen_orc @ [\<lparr>sent = msgs, reply = result\<rparr>], orc')))"

definition plain_state :: "(invocation list \<times> 'o) retry_state \<Rightarrow> 'o retry_state" where
  "plain_state s =
     \<lparr>system_message = system_message s, sets = sets s, report_raw = report_raw s,
      tries = tries s, llm_state = snd (llm_state s), calls = calls s\<rparr>"

section \<open>The vocabulary of the specification\<close>

text \<open>
  Row \<open>i\<close> of a matrix, a scalar entry, and the entries of the \<^verbatim>\<open>values\<close> field of one
  proposed candidate with their conversions to float64.
\<close>

definition row :: "ndarray \<Rightarrow> nat \<Rightarrow> npfloat list" where
  "row a i = (case shape a of [r, c] \<Rightarrow> take c (drop (i * c) (data a)) | _ \<Rightarrow> [])"

definition is_scalar :: "pyval \<Rightarrow> bool" where
  "is_scalar v = (case v of PList _ \<Rightarrow> False | PTuple _ \<Rightarrow> False | PArray _ \<Rightarrow> False | _ \<Rightarrow> True)"

definition spec_sequence :: "pyval \<Rightarrow> pyval list option" where
  "spec_sequence v = (case v of PList xs \<Rightarrow> Some xs | PTuple xs \<Rightarrow> Some xs | _ \<Rightarrow> None)"

definition values_entries :: "pyval \<Rightarrow> pyval list option" where
  "values_entries item =
     (case item of
        PDict kvs \<Rightarrow>
          (case map_of kvs (PStr ''values'') of None \<Rightarrow> None | Some v \<Rightarrow> spec_sequence v)
      | _ \<Rightarrow> None)"

definition has_rationale :: "pyval \<Rightarrow> bool" where
  "has_rationale item =
     (case item of PDict kvs \<Rightarrow> map_of kvs (PStr ''rationale'') \<noteq> None | _ \<Rightarrow> False)"

definition float_values :: "pylib \<Rightarrow> pyval \<Rightarrow> (error + npfloat) list" where
  "float_values lib item =
     (case values_entries item of None \<Rightarrow> [] | Some vs \<Rightarrow> map (np_float lib) vs)"

definition float_row :: "pylib \<Rightarrow> pyval \<Rightarrow> npfloat list" where
  "float_row lib item =
     map (\<lambda>x. case x of Inl e \<Rightarrow> NaN | Inr y \<Rightarrow> y) (float_values lib item)"

text \<open>
  A proposed candidate as the data model has it: a dict with a \<^verbatim>\<open>rationale\<close> and with
  \<^verbatim>\<open>values\<close> a list or tuple of \<open>n\<close> scalars, each of which numpy converts to a float.
\<close>

definition numeric_candidate :: "pylib \<Rightarrow> nat \<Rightarrow> pyval \<Rightarrow> bool" where
  "numeric_candidate lib n item =
     (case values_entries item of
        None \<Rightarrow> False
      | Some vs \<Rightarrow>
          length vs = n \<and> has_rationale item
          \<and> list_all (\<lambda>v. is_scalar v \<and> \<not> isl (np_float lib v)) vs)"

text \<open>A candidate whose \<^verbatim>\<open>rationale\<close> \<^verbatim>\<open>str\<close> turns into a text without raising.\<close>

definition printable_rationale :: "pylib \<Rightarrow> pyval \<Rightarrow> bool" where
  "printable_rationale lib item =
     (case item of
        PDict kvs \<Rightarrow>
          (case map_of kvs (PStr ''rationale'') of
             None \<Rightarrow> False
           | Some r \<Rightarrow> \<not> isl (py_str lib r))
      | _ \<Rightarrow> False)"

text \<open>
  The validator as the specification words it: the stripped text parses to a sequence of
  exactly \<open>pool_size\<close> elements, each a mapping with both fields whose \<^verbatim>\<open>values\<close> is a
  sequence of exactly \<open>n_vars\<close> numeric-coercible entries. A sequence is a list or a tuple.
\<close>

definition spec_accepts :: "pylib \<Rightarrow> nat \<Rightarrow> nat \<Rightarrow> string \<Rightarrow> bool" where
  "spec_accepts lib pool_size_v n_vars_v text =
     (case literal_eval lib (str_strip lib text) of
        None \<Rightarrow> False
      | Some v \<Rightarrow>
          (case spec_sequence v of
             None \<Rightarrow> False
           | Some items \<Rightarrow>
               length items = pool_size_v \<and> list_all (numeric_candidate lib n_vars_v) items))"

text \<open>The Instruction and the Context of one call: the contents of its two messages.\<close>

definition instruction :: "invocation \<Rightarrow> string" where
  "instruction c = (case sent c of [(r1, sys), (r2, usr)] \<Rightarrow> sys | _ \<Rightarrow> [])"

definition context_text :: "invocation \<Rightarrow> string" where
  "context_text c = (case sent c of [(r1, sys), (r2, usr)] \<Rightarrow> usr | _ \<Rightarrow> [])"

text \<open>
  The two standard deviations of a sample: with divisor \<open>n - 1\<close> (the sample standard
  deviation) and with divisor \<open>n\<close> (the population standard deviation).
\<close>

definition arith_mean :: "real list \<Rightarrow> real" where
  "arith_mean xs = sum_list xs / real (length xs)"

definition sample_sd :: "real list \<Rightarrow> real" where
  "sample_sd xs =
     sqrt (sum_list (map (\<lambda>x. (x - arith_mean xs) ^ 2) xs) / (real (length xs) - 1))"

definition population_sd :: "real list \<Rightarrow> real" where
  "population_sd xs =
     sqrt (sum_list (map (\<lambda>x. (x - arith_mean xs) ^ 2) xs) / real (length xs))"

text \<open>The full history: \<^verbatim>\<open>all_para\<close>, or the parent pool when the state has none.\<close>

definition history :: "state \<Rightarrow> pyval option" where
  "history st = (case st ''all_para'' of None \<Rightarrow> st ''parent_pool'' | Some h \<Rightarrow> Some h)"

text \<open>The keys of the state that the prompts are built from.\<close>

definition context_keys :: "string set" where
  "context_keys = {''parent_pool'', ''parent_objectives'', ''most_recent'', ''all_para'',
                   ''bounds'', ''budget'', ''summary''}"


section \<open>Stand-ins for the library and the model, and example states\<close>

text \<open>
  A stand-in for the library on the few inputs the examples use. \<open>stub_literal_eval\<close>
  gives, for each example reply, the value \<^verbatim>\<open>ast.literal_eval\<close> gives, and fails on
  every other text; \<open>stub_np_float\<close> converts \<^verbatim>\<open>None\<close>, booleans, floats and the integers
  that round to a float64 as numpy does, raises \<^verbatim>\<open>OverflowError\<close> on the integers beyond
  them, and fails on everything else, in particular on the string \<^verbatim>\<open>'high'\<close>, the only
  string it is asked about. The renderings of values and arrays are placeholders that
  never raise, printing always succeeds, and no value that is not an array is reduced.
\<close>

definition reply_good :: string where
  "reply_good =
     ''[{'' @ quote @ ''values'' @ quote @ '': [1, 2], '' @ quote @ ''rationale'' @ quote
     @ '': '' @ quote @ ''a'' @ quote @ ''}, {'' @ quote @ ''values'' @ quote
     @ '': (3, 4), '' @ quote @ ''rationale'' @ quote @ '': '' @ quote @ ''b'' @ quote @ ''}]''"

definition reply_text_entry :: string where
  "reply_text_entry =
     ''[{'' @ quote @ ''values'' @ quote @ '': [1, '' @ quote @ ''high'' @ quote @ ''], ''
     @ quote @ ''rationale'' @ quote @ '': '' @ quote @ ''a'' @ quote @ ''}, {''
     @ quote @ ''values'' @ quote @ '': [3, 4], '' @ quote @ ''rationale'' @ quote
     @ '': '' @ quote @ ''b'' @ quote @ ''}]''"

definition reply_nested :: string where
  "reply_nested =
     ''[{'' @ quote @ ''values'' @ quote @ '': [[1, 2], [3, 4]], '' @ quote @ ''rationale''
     @ quote @ '': '' @ quote @ ''a'' @ quote @ ''}, {'' @ quote @ ''values'' @ quote
     @ '': [[5, 6], [7, 8]], '' @ quote @ ''rationale'' @ quote @ '': '' @ quote @ ''b''
     @ quote @ ''}]''"

definition reply_tuple :: string where
  "reply_tuple =
     ''({'' @ quote @ ''values'' @ quote @ '': [1, 2], '' @ quote @ ''rationale'' @ quote
     @ '': '' @ quote @ ''a'' @ quote @ ''}, {'' @ quote @ ''values'' @ quote
     @ '': [3, 4], '' @ quote @ ''rationale'' @ quote @ '': '' @ quote @ ''b'' @ quote @ ''})''"

definition reply_empty :: string where
  "reply_empty = ''[]''"

definition reply_prose :: string where
  "reply_prose = ''Sorry, I cannot help with that.''"

definition candidate :: "pyval \<Rightarrow> string \<Rightarrow> pyval" where
  "candidate vs why = PDict [(PStr ''values'', vs), (PStr ''rationale'', PStr why)]"

definition stub_literal_eval :: "string \<Rightarrow> pyval option" where
  "stub_literal_eval text =
     (if text = reply_good
      then Some (PList [candidate (PList [PInt 1, PInt 2]) ''a'',
                        candidate (PTuple [PInt 3, PInt 4]) ''b''])
      else if text = reply_text_entry
      then Some (PList [candidate (PList [PInt 1, PStr ''high'']) ''a'',
                        candidate (PList [PInt 3, PInt 4]) ''b''])
      else if text = reply_nested
      then Some (PList [candidate (PList [PList [PInt 1, PInt 2], PList [PInt 3, PInt 4]]) ''a'',
                        candidate (PList [PList [PInt 5, PInt 6], PList [PInt 7, PInt 8]]) ''b''])
      else if text = reply_tuple
      then Some (PTuple [candidate (PList [PInt 1, PInt 2]) ''a'',
                         candidate (PList [PInt 3, PInt 4]) ''b''])
      else if text = reply_empty
      then Some (PList [])
      else None)"

definition float64_limit :: int where
  "float64_limit = 2 ^ 1024 - 2 ^ 970"

definition stub_np_float :: "pyval \<Rightarrow> error + npfloat" where
  "stub_np_float v =
     (case v of
        PNone \<Rightarrow> Inr NaN
      | PBool b \<Rightarrow> Inr (Num (if b then 1 else 0))
      | PInt i \<Rightarrow> if \<bar>i\<bar> < float64_limit then Inr (Num (real_of_int i)) else Inl OverflowError
      | PFloat x \<Rightarrow> Inr x
      | PStr s \<Rightarrow> Inl ValueError
      | _ \<Rightarrow> Inl TypeError)"

definition stub_lib :: pylib where
  "stub_lib =
     \<lparr>str_strip = (\<lambda>text. text),
      literal_eval = stub_literal_eval,
      np_float = stub_np_float,
      np_asarray = (\<lambda>v. Inl TypeError),
      py_str = (\<lambda>v. Inr ''<value>''),
      arr2str = (\<lambda>v decimals max_rows. Inr ''<array>''),
      py_print = (\<lambda>text. None)\<rparr>"

text \<open>
  The same library under a standard output that encodes ASCII only: printing a text with
  any other byte raises.
\<close>

definition stub_lib_ascii :: pylib where
  "stub_lib_ascii =
     stub_lib\<lparr>py_print :=
       (\<lambda>text. if list_all (\<lambda>c. (of_char c :: nat) < 128) text then None
               else Some UnicodeEncodeError)\<rparr>"

text \<open>
  The same library with Python's limit on the decimal digits of an integer it prints
  (\<^verbatim>\<open>sys.int_max_str_digits\<close>, 4300 by default): \<^verbatim>\<open>str\<close> of an integer of more digits
  raises \<^verbatim>\<open>ValueError\<close>. A hexadecimal literal has no such limit when it is read, so the
  reply \<open>reply_huge\<close>, whose first \<^verbatim>\<open>rationale\<close> is the literal \<^verbatim>\<open>0x1\<close> followed by 3600
  zeros, parses to a dict with the integer \<open>huge_int\<close>.
\<close>

definition int_max_str_digits :: nat where
  "int_max_str_digits = 4300"

definition stub_py_str :: "pyval \<Rightarrow> error + string" where
  "stub_py_str v =
     (case v of
        PInt i \<Rightarrow> if 10 ^ int_max_str_digits \<le> \<bar>i\<bar> then Inl ValueError else Inr ''<value>''
      | _ \<Rightarrow> Inr ''<value>'')"

definition reply_huge :: string where
  "reply_huge =
     ''[{'' @ quote @ ''values'' @ quote @ '': [1, 2], '' @ quote @ ''rationale'' @ quote
     @ '': 0x1'' @ replicate 3600 (CHR ''0'') @ ''}, {'' @ quote @ ''values'' @ quote
     @ '': [3, 4], '' @ quote @ ''rationale'' @ quote @ '': '' @ quote @ ''b'' @ quote @ ''}]''"

definition huge_int :: int where
  "huge_int = 16 ^ 3600"

definition huge_candidates :: "pyval list" where
  "huge_candidates =
     [PDict [(PStr ''values'', PList [PInt 1, PInt 2]), (PStr ''rationale'', PInt huge_int)],
      candidate (PList [PInt 3, PInt 4]) ''b'']"

definition stub_lib_digits :: pylib where
  "stub_lib_digits =
     stub_lib\<lparr>literal_eval :=
                (\<lambda>text. if text = reply_huge then Some (PList huge_candidates)
                        else stub_literal_eval text),
              py_str := stub_py_str\<rparr>"

text \<open>
  Models that answer every call with the same text, and one that answers the first call
  with prose and every later call with the good reply. Its state counts the calls.
\<close>

definition always :: "string \<Rightarrow> nat llm" where
  "always text n msgs = (text, Suc n)"

definition prose_then_good :: "nat llm" where
  "prose_then_good n msgs = (if n = 0 then reply_prose else reply_good, Suc n)"

text \<open>
  A state with a pool of two candidates of two parameters, one objective each, and a
  summary; and the same state after an earlier call has left its three keys.
\<close>

definition matrix :: "nat \<Rightarrow> nat \<Rightarrow> real list \<Rightarrow> pyval" where
  "matrix r c xs = PArray \<lparr>shape = [r, c], data = map Num xs\<rparr>"

definition example_summary :: pyval where
  "example_summary =
     PDict [(PStr ''param_param_corr'', matrix 2 2 [1, 0, 0, 1]),
            (PStr ''param_obj_corr'', matrix 2 1 [1, -1]),
            (PStr ''pca_loadings'', matrix 2 2 [1, 0, 0, 1]),
            (PStr ''pca_explained_variance'', PArray \<lparr>shape = [2], data = [Num 1, Num 0]\<rparr>)]"

definition example_state :: state where
  "example_state =
     [''parent_pool'' \<mapsto> matrix 2 2 [0, 10, 2, 20],
      ''parent_objectives'' \<mapsto> matrix 2 1 [5, 6],
      ''summary'' \<mapsto> example_summary]"

text \<open>The local variables the agent computes from it, and its two prompts.\<close>

definition example_vars :: node_vars where
  "example_vars =
     \<lparr>parent_pool = matrix 2 2 [0, 10, 2, 20], parent_objectives = matrix 2 1 [5, 6],
      most_recent = PInt 100, all_para = matrix 2 2 [0, 10, 2, 20],
      n_vars = 2, n_objs = 1, bounds_str = ''[0, 1]'', budget = PInt 2, pool_size = 2,
      param_diversity = \<lparr>shape = [2], data = [Num 1, Num 5]\<rparr>,
      param_param_corr = matrix 2 2 [1, 0, 0, 1], param_obj_corr = matrix 2 1 [1, -1],
      pca_loadings = matrix 2 2 [1, 0, 0, 1],
      pca_explained_variance = PArray \<lparr>shape = [2], data = [Num 1, Num 0]\<rparr>\<rparr>"

definition example_system :: string where
  "example_system = system_text example_vars ''<value>'' ''<value>''"

definition example_user :: string where
  "example_user =
     user_text example_vars ''<array>'' ''<array>'' ''<array>'' ''<array>'' ''<array>''
       ''<array>'' ''<array>'' ''<value>''"

definition example_state_again :: state where
  "example_state_again =
     example_state(''diverse_pool'' \<mapsto> matrix 2 2 [9, 9, 9, 9],
                   ''rationales'' \<mapsto> PList [],
                   ''diversity_report_raw'' \<mapsto> PStr reply_prose)"

text \<open>A state whose pool has no candidate: a matrix of no rows and two columns.\<close>

definition example_state_empty :: state where
  "example_state_empty =
     example_state(''parent_pool'' \<mapsto> matrix 0 2 [],
                   ''parent_objectives'' \<mapsto> matrix 0 1 [])"

definition example_state_window :: state where
  "example_state_window =
     example_state(''all_para'' \<mapsto> matrix 3 2 [100, 7, 0, 10, 2, 20],
                   ''most_recent'' \<mapsto> PInt 2)"

definition example_state_zero :: state where
  "example_state_zero =
     example_state(''all_para'' \<mapsto> matrix 3 2 [100, 7, 0, 10, 2, 20],
                   ''most_recent'' \<mapsto> PInt 0)"

section \<open>The retry loop: what one pass does, and how many passes there are\<close>

declare retry_loop.simps [simp del]

lemma attempt_fields:
  "tries (attempt lib llm ps nv usr s) = tries s + 1"
  "sets (attempt lib llm ps nv usr s) = parse_sets lib ps nv (fst (llm (llm_state s) [(''system'', system_message s), (''user'', usr)]))"
  "report_raw (attempt lib llm ps nv usr s) = fst (llm (llm_state s) [(''system'', system_message s), (''user'', usr)])"
  "llm_state (attempt lib llm ps nv usr s) = snd (llm (llm_state s) [(''system'', system_message s), (''user'', usr)])"
  "calls (attempt lib llm ps nv usr s) = calls s @ [\<lparr>sent = [(''system'', system_message s), (''user'', usr)], reply = fst (llm (llm_state s) [(''system'', system_message s), (''user'', usr)])\<rparr>]"
  "system_message (attempt lib llm ps nv usr s) =
     (if parse_sets lib ps nv (fst (llm (llm_state s) [(''system'', system_message s), (''user'', usr)])) = None
      then system_message s @ retry_warning ps nv else system_message s)"
  by (simp_all add: attempt_def Let_def split: prod.splits)

lemma retry_loop_stop:
  "\<not> (sets s = None \<and> tries s < max_retries) \<Longrightarrow> retry_loop lib llm max_retries ps nv usr s = s"
  by (subst retry_loop.simps) auto

lemma retry_loop_step:
  "sets s = None \<Longrightarrow> tries s < max_retries \<Longrightarrow>
   retry_loop lib llm max_retries ps nv usr s =
   retry_loop lib llm max_retries ps nv usr (attempt lib llm ps nv usr s)"
  by (subst retry_loop.simps) auto


lemma retry_loop_calls_mono:
  "length (calls s) \<le> length (calls (retry_loop lib llm max_retries ps nv usr s))"
proof (induction lib llm max_retries ps nv usr s rule: retry_loop.induct)
  case (1 lib llm max_retries ps nv usr s)
  show ?case
  proof (cases "sets s = None \<and> tries s < max_retries")
    case True
    then have "length (calls (attempt lib llm ps nv usr s))
        \<le> length (calls (retry_loop lib llm max_retries ps nv usr s))"
      using "1.IH" retry_loop_step[of s max_retries lib llm ps nv usr] by simp
    then show ?thesis by (simp add: attempt_fields)
  next
    case False
    then show ?thesis by (simp add: retry_loop_stop)
  qed
qed

lemma retry_loop_calls_lower:
  assumes "sets s = None" "tries s < max_retries"
  shows "length (calls s) < length (calls (retry_loop lib llm max_retries ps nv usr s))"
proof -
  have "length (calls (attempt lib llm ps nv usr s))
        \<le> length (calls (retry_loop lib llm max_retries ps nv usr (attempt lib llm ps nv usr s)))"
    by (rule retry_loop_calls_mono)
  then have "length (calls s) < length (calls (retry_loop lib llm max_retries ps nv usr (attempt lib llm ps nv usr s)))"
    by (simp add: attempt_fields)
  then show ?thesis using assms by (subst retry_loop.simps) simp
qed

lemma retry_loop_cases:
  "retry_loop lib llm max_retries ps nv usr s = s
   \<or> (\<exists>s'. retry_loop lib llm max_retries ps nv usr s = attempt lib llm ps nv usr s')"
proof (induction lib llm max_retries ps nv usr s rule: retry_loop.induct)
  case (1 lib llm max_retries ps nv usr s)
  show ?case
  proof (cases "sets s = None \<and> tries s < max_retries")
    case True
    then have step: "retry_loop lib llm max_retries ps nv usr s
        = retry_loop lib llm max_retries ps nv usr (attempt lib llm ps nv usr s)"
      by (simp add: retry_loop_step)
    from "1.IH" True show ?thesis unfolding step by blast
  next
    case False
    then show ?thesis by (simp add: retry_loop_stop)
  qed
qed

lemma retry_loop_last_reply:
  assumes "sets s = None" "tries s < max_retries"
  shows "calls (retry_loop lib llm max_retries ps nv usr s) \<noteq> []
     \<and> report_raw (retry_loop lib llm max_retries ps nv usr s)
         = reply (last (calls (retry_loop lib llm max_retries ps nv usr s)))
     \<and> sets (retry_loop lib llm max_retries ps nv usr s)
         = parse_sets lib ps nv (reply (last (calls (retry_loop lib llm max_retries ps nv usr s))))"
proof -
  let ?a = "attempt lib llm ps nv usr s"
  have step: "retry_loop lib llm max_retries ps nv usr s
      = retry_loop lib llm max_retries ps nv usr ?a"
    using assms by (simp add: retry_loop_step)
  from retry_loop_cases [of lib llm max_retries ps nv usr ?a]
  obtain s' where "retry_loop lib llm max_retries ps nv usr ?a = attempt lib llm ps nv usr s'"
    by blast
  then show ?thesis unfolding step by (simp add: attempt_fields)
qed

lemma retry_loop_sent:
  "\<exists>new. calls (retry_loop lib llm max_retries ps nv usr s) = calls s @ new
     \<and> (\<forall>j < length new. sent (new ! j) =
           [(''system'', system_message s @ concat (replicate j (retry_warning ps nv))),
            (''user'', usr)])"
proof (induction lib llm max_retries ps nv usr s rule: retry_loop.induct)
  case (1 lib llm max_retries ps nv usr s)
  let ?w = "retry_warning ps nv"
  let ?a = "attempt lib llm ps nv usr s"
  let ?c = "\<lparr>sent = [(''system'', system_message s), (''user'', usr)],
             reply = fst (llm (llm_state s) [(''system'', system_message s), (''user'', usr)])\<rparr>"
  show ?case
  proof (cases "sets s = None \<and> tries s < max_retries")
    case False
    then show ?thesis by (simp add: retry_loop_stop)
  next
    case True
    then have step: "retry_loop lib llm max_retries ps nv usr s
        = retry_loop lib llm max_retries ps nv usr ?a"
      by (simp add: retry_loop_step)
    have ca: "calls ?a = calls s @ [?c]" by (simp add: attempt_fields)
    show ?thesis
    proof (cases "sets ?a = None")
      case False
      then have "retry_loop lib llm max_retries ps nv usr ?a = ?a"
        by (simp add: retry_loop_stop)
      then have "calls (retry_loop lib llm max_retries ps nv usr s) = calls s @ [?c]"
        unfolding step using ca by simp
      then show ?thesis by simp
    next
      case inv: True
      then have sys: "system_message ?a = system_message s @ ?w"
        by (simp add: attempt_fields)
      from "1.IH" True obtain new where
        n1: "calls (retry_loop lib llm max_retries ps nv usr ?a) = calls ?a @ new" and
        n2: "\<forall>j < length new. sent (new ! j) =
               [(''system'', system_message ?a @ concat (replicate j ?w)), (''user'', usr)]"
        by blast
      have "calls (retry_loop lib llm max_retries ps nv usr s) = calls s @ (?c # new)"
        unfolding step using n1 ca by simp
      moreover have "\<forall>j < length (?c # new). sent ((?c # new) ! j) =
               [(''system'', system_message s @ concat (replicate j ?w)), (''user'', usr)]"
      proof (intro allI impI)
        fix j assume "j < length (?c # new)"
        then show "sent ((?c # new) ! j) =
               [(''system'', system_message s @ concat (replicate j ?w)), (''user'', usr)]"
          using n2 sys by (cases j) simp_all
      qed
      ultimately show ?thesis by blast
    qed
  qed
qed

lemma retry_loop_all_invalid:
  "(\<forall>orc msgs. parse_sets lib ps nv (fst (llm orc msgs)) = None) \<Longrightarrow> sets s = None \<Longrightarrow>
     sets (retry_loop lib llm max_retries ps nv usr s) = None
     \<and> length (calls (retry_loop lib llm max_retries ps nv usr s))
         = length (calls s) + nat (max_retries - tries s)"
proof (induction lib llm max_retries ps nv usr s rule: retry_loop.induct)
  case (1 lib llm max_retries ps nv usr s)
  show ?case
  proof (cases "tries s < max_retries")
    case False
    with "1.prems" show ?thesis by (simp add: retry_loop_stop)
  next
    case True
    let ?a = "attempt lib llm ps nv usr s"
    have step: "retry_loop lib llm max_retries ps nv usr s
        = retry_loop lib llm max_retries ps nv usr ?a"
      using True "1.prems" by (simp add: retry_loop_step)
    have "sets ?a = None" using "1.prems" by (simp add: attempt_fields)
    with "1.IH" True "1.prems"
    have "sets (retry_loop lib llm max_retries ps nv usr ?a) = None
     \<and> length (calls (retry_loop lib llm max_retries ps nv usr ?a))
         = length (calls ?a) + nat (max_retries - tries ?a)"
      by blast
    then show ?thesis unfolding step using True by (simp add: attempt_fields)
  qed
qed


lemma retry_loop_replies:
  "\<exists>new. calls (retry_loop lib llm max_retries ps nv usr s) = calls s @ new
     \<and> (\<forall>j. Suc j < length new \<longrightarrow> parse_sets lib ps nv (reply (new ! j)) = None)"
proof (induction lib llm max_retries ps nv usr s rule: retry_loop.induct)
  case (1 lib llm max_retries ps nv usr s)
  let ?a = "attempt lib llm ps nv usr s"
  let ?c = "\<lparr>sent = [(''system'', system_message s), (''user'', usr)],
             reply = fst (llm (llm_state s) [(''system'', system_message s), (''user'', usr)])\<rparr>"
  show ?case
  proof (cases "sets s = None \<and> tries s < max_retries")
    case False
    then show ?thesis by (simp add: retry_loop_stop)
  next
    case True
    then have step: "retry_loop lib llm max_retries ps nv usr s
        = retry_loop lib llm max_retries ps nv usr ?a"
      by (simp add: retry_loop_step)
    have ca: "calls ?a = calls s @ [?c]" by (simp add: attempt_fields)
    show ?thesis
    proof (cases "sets ?a = None")
      case False
      then have "retry_loop lib llm max_retries ps nv usr ?a = ?a"
        by (simp add: retry_loop_stop)
      then have "calls (retry_loop lib llm max_retries ps nv usr s) = calls s @ [?c]"
        unfolding step using ca by simp
      then show ?thesis by simp
    next
      case inv: True
      then have bad: "parse_sets lib ps nv (reply ?c) = None"
        by (simp add: attempt_fields)
      from "1.IH" True obtain new where
        n1: "calls (retry_loop lib llm max_retries ps nv usr ?a) = calls ?a @ new" and
        n2: "\<forall>j. Suc j < length new \<longrightarrow> parse_sets lib ps nv (reply (new ! j)) = None"
        by blast
      have "calls (retry_loop lib llm max_retries ps nv usr s) = calls s @ (?c # new)"
        unfolding step using n1 ca by simp
      moreover have "\<forall>j. Suc j < length (?c # new)
            \<longrightarrow> parse_sets lib ps nv (reply ((?c # new) ! j)) = None"
      proof (intro allI impI)
        fix j assume "Suc j < length (?c # new)"
        then show "parse_sets lib ps nv (reply ((?c # new) ! j)) = None"
          using n2 bad by (cases j) simp_all
      qed
      ultimately show ?thesis by blast
    qed
  qed
qed

lemma retry_loop_report_raw:
  "sets s = None \<Longrightarrow> calls s = [] \<Longrightarrow> report_raw s = [] \<Longrightarrow>
   report_raw (retry_loop lib llm max_retries ps nv usr s)
   = (if calls (retry_loop lib llm max_retries ps nv usr s) = [] then []
      else reply (last (calls (retry_loop lib llm max_retries ps nv usr s))))"
proof (cases "tries s < max_retries")
  case True
  assume "sets s = None"
  from retry_loop_last_reply [OF this True, of lib llm ps nv usr]
  show ?thesis by simp
next
  case False
  assume "calls s = []" "report_raw s = []"
  with False show ?thesis by (simp add: retry_loop_stop)
qed

lemma concat_replicate_snoc:
  "concat (replicate (Suc i) w) = concat (replicate i w) @ w"
  by (induction i) simp_all

lemma retry_loop_first_accepted:
  assumes "sets s = None" "tries s < max_retries"
    and "parse_sets lib ps nv (fst (llm (llm_state s) [(''system'', system_message s), (''user'', usr)]))
           = Some items"
  shows "retry_loop lib llm max_retries ps nv usr s = attempt lib llm ps nv usr s"
proof -
  have "sets (attempt lib llm ps nv usr s) \<noteq> None"
    using assms(3) by (simp add: attempt_fields)
  then have "retry_loop lib llm max_retries ps nv usr (attempt lib llm ps nv usr s)
      = attempt lib llm ps nv usr s"
    by (simp add: retry_loop_stop)
  then show ?thesis using assms(1,2) by (simp add: retry_loop_step)
qed

section \<open>The agent in terms of its loop\<close>

lemma and_then_simps:
  "and_then (Inr x) f = f x"
  "and_then (Inl e) f = Inl e"
  by (simp_all add: and_then_def)

lemma node_invocations:
  "prepare lib st = Inr (l, sys, usr) \<Longrightarrow>
   invocations (diversity_agent_node lib llm max_retries orc st)
   = calls (retry_loop lib llm max_retries (pool_size l) (n_vars l) usr (retry_start sys orc))"
  by (simp add: diversity_agent_node_def Let_def split: option.splits)

lemma node_llm_after:
  "prepare lib st = Inr (l, sys, usr) \<Longrightarrow>
   llm_after (diversity_agent_node lib llm max_retries orc st)
   = llm_state (retry_loop lib llm max_retries (pool_size l) (n_vars l) usr (retry_start sys orc))"
  by (simp add: diversity_agent_node_def Let_def split: option.splits)

lemma node_raises_before_loop:
  "prepare lib st = Inl e \<Longrightarrow>
   returned (diversity_agent_node lib llm max_retries orc st) = Inl e
   \<and> invocations (diversity_agent_node lib llm max_retries orc st) = []
   \<and> llm_after (diversity_agent_node lib llm max_retries orc st) = orc"
  by (simp add: diversity_agent_node_def)

lemma node_returned:
  "prepare lib st = Inr (l, sys, usr) \<Longrightarrow>
   returned (diversity_agent_node lib llm max_retries orc st)
   = (let s = retry_loop lib llm max_retries (pool_size l) (n_vars l) usr (retry_start sys orc)
      in case sets s of
           None \<Rightarrow>
             (case py_print lib fallback_notice of
                Some e \<Rightarrow> Inl e
              | None \<Rightarrow>
                  Inr (st(''diverse_pool'' \<mapsto> parent_pool l, ''rationales'' \<mapsto> PList [],
                          ''diversity_report_raw'' \<mapsto> PStr (report_raw s))))
         | Some items \<Rightarrow> assemble_pool lib st items)"
  by (simp add: diversity_agent_node_def Let_def split: option.splits)

lemma node_printed:
  "prepare lib st = Inr (l, sys, usr) \<Longrightarrow>
   printed (diversity_agent_node lib llm max_retries orc st)
   = (case sets (retry_loop lib llm max_retries (pool_size l) (n_vars l) usr
                   (retry_start sys orc)) of
        None \<Rightarrow> (case py_print lib fallback_notice of Some e \<Rightarrow> [] | None \<Rightarrow> [fallback_notice])
      | Some items \<Rightarrow> [])"
  by (simp add: diversity_agent_node_def Let_def split: option.splits)

lemma retry_start_fields:
  "system_message (retry_start sys orc) = sys"
  "sets (retry_start sys orc) = None"
  "report_raw (retry_start sys orc) = []"
  "tries (retry_start sys orc) = 0"
  "llm_state (retry_start sys orc) = orc"
  "calls (retry_start sys orc) = []"
  by (simp_all add: retry_start_def)

lemma prepare_read:
  "prepare lib st = Inr (l, sys, usr) \<Longrightarrow>
   read_state lib st = Inr l \<and> initial_system_message lib l = Inr sys \<and> user_msg lib l = Inr usr"
  by (auto simp: prepare_def and_then_def split: sum.splits)

lemma read_state_parent_pool:
  "read_state lib st = Inr l \<Longrightarrow> st ''parent_pool'' = Some (parent_pool l)"
  by (auto simp: read_state_def and_then_def getitem_def Let_def split: option.splits sum.splits)

section \<open>What the model is really asked\<close>

lemma recording_apply:
  "recording llm seen_orc msgs =
     (fst (llm (snd seen_orc) msgs),
      (fst seen_orc @ [\<lparr>sent = msgs, reply = fst (llm (snd seen_orc) msgs)\<rparr>],
       snd (llm (snd seen_orc) msgs)))"
  by (simp add: recording_def split: prod.splits)

lemma plain_state_fields:
  "system_message (plain_state s) = system_message s"
  "sets (plain_state s) = sets s"
  "report_raw (plain_state s) = report_raw s"
  "tries (plain_state s) = tries s"
  "llm_state (plain_state s) = snd (llm_state s)"
  "calls (plain_state s) = calls s"
  by (simp_all add: plain_state_def)

lemma attempt_recording:
  "plain_state (attempt lib (recording llm) ps nv usr s) = attempt lib llm ps nv usr (plain_state s)"
  by (simp add: attempt_def plain_state_def recording_apply Let_def split: prod.splits)

lemma attempt_recording_seen:
  "fst (llm_state s) = calls s \<Longrightarrow>
   fst (llm_state (attempt lib (recording llm) ps nv usr s))
   = calls (attempt lib (recording llm) ps nv usr s)"
  by (simp add: attempt_fields recording_apply)

lemma retry_loop_recording:
  "plain_state (retry_loop lib (recording llm) max_retries ps nv usr s)
   = retry_loop lib llm max_retries ps nv usr (plain_state s)"
proof (induction lib "recording llm" max_retries ps nv usr s rule: retry_loop.induct)
  case (1 lib max_retries ps nv usr s)
  show ?case
  proof (cases "sets s = None \<and> tries s < max_retries")
    case True
    then have "sets (plain_state s) = None \<and> tries (plain_state s) < max_retries"
      by (simp add: plain_state_fields)
    with True "1.hyps" show ?thesis
      by (simp add: retry_loop_step attempt_recording)
  next
    case False
    then have "\<not> (sets (plain_state s) = None \<and> tries (plain_state s) < max_retries)"
      by (simp add: plain_state_fields)
    with False show ?thesis by (simp add: retry_loop_stop)
  qed
qed

lemma retry_loop_recording_seen:
  "fst (llm_state s) = calls s \<Longrightarrow>
   fst (llm_state (retry_loop lib (recording llm) max_retries ps nv usr s))
   = calls (retry_loop lib (recording llm) max_retries ps nv usr s)"
proof (induction lib "recording llm" max_retries ps nv usr s rule: retry_loop.induct)
  case (1 lib max_retries ps nv usr s)
  show ?case
  proof (cases "sets s = None \<and> tries s < max_retries")
    case True
    with "1.hyps" "1.prems" show ?thesis
      by (simp add: retry_loop_step attempt_recording_seen)
  next
    case False
    with "1.prems" show ?thesis by (simp add: retry_loop_stop)
  qed
qed

lemma plain_retry_start: "plain_state (retry_start sys (seen, orc)) = retry_start sys orc"
  by (simp add: plain_state_def retry_start_def)

text \<open>
  A run does the same with a model and with the model that keeps a record, and the record
  it leaves is the log of the run: each entry of the log is one call the model received.
\<close>

lemma recorded_run_all:
  "returned (diversity_agent_node lib (recording llm) max_retries ([], orc) st)
     = returned (diversity_agent_node lib llm max_retries orc st)
   \<and> printed (diversity_agent_node lib (recording llm) max_retries ([], orc) st)
     = printed (diversity_agent_node lib llm max_retries orc st)
   \<and> snd (llm_after (diversity_agent_node lib (recording llm) max_retries ([], orc) st))
     = llm_after (diversity_agent_node lib llm max_retries orc st)
   \<and> fst (llm_after (diversity_agent_node lib (recording llm) max_retries ([], orc) st))
     = invocations (diversity_agent_node lib llm max_retries orc st)"
proof (cases "prepare lib st")
  case (Inl e)
  then show ?thesis by (simp add: diversity_agent_node_def)
next
  case (Inr p)
  then obtain l sys usr where p: "prepare lib st = Inr (l, sys, usr)"
    by (cases p) auto
  let ?rec = "retry_loop lib (recording llm) max_retries (pool_size l) (n_vars l) usr
                (retry_start sys ([], orc))"
  let ?pl = "retry_loop lib llm max_retries (pool_size l) (n_vars l) usr (retry_start sys orc)"
  have eq: "plain_state ?rec = ?pl"
    by (simp add: retry_loop_recording plain_retry_start)
  have seen: "fst (llm_state ?rec) = calls ?rec"
    by (rule retry_loop_recording_seen) (simp add: retry_start_fields)
  have f: "sets ?rec = sets ?pl" "report_raw ?rec = report_raw ?pl" "calls ?rec = calls ?pl"
    "snd (llm_state ?rec) = llm_state ?pl"
    using eq plain_state_fields [of ?rec] by simp_all
  show ?thesis
    using seen
    by (simp add: node_returned [OF p] node_printed [OF p] node_llm_after [OF p]
          node_invocations [OF p] f Let_def split: option.splits)
qed

lemma recorded_run:
  "returned (diversity_agent_node lib (recording llm) max_retries ([], orc) st)
     = returned (diversity_agent_node lib llm max_retries orc st)"
  "printed (diversity_agent_node lib (recording llm) max_retries ([], orc) st)
     = printed (diversity_agent_node lib llm max_retries orc st)"
  "snd (llm_after (diversity_agent_node lib (recording llm) max_retries ([], orc) st))
     = llm_after (diversity_agent_node lib llm max_retries orc st)"
  "fst (llm_after (diversity_agent_node lib (recording llm) max_retries ([], orc) st))
     = invocations (diversity_agent_node lib llm max_retries orc st)"
  using recorded_run_all [of lib llm max_retries orc st] by simp_all

section \<open>The example state\<close>

lemmas state_simps = getitem_def get_default_def dict_getitem_def shape_at_def neg_index_def
  slice_start_def slice_from_def unpack_pair_def render_bounds_def and_then_def
  np_std_def as_numeric_def np_std_axis0_def np_std_1d_def np_mean_def matrix_def
  example_summary_def Let_def upt_conv_Cons numeral_2_eq_2

lemma example_read: "read_state stub_lib example_state = Inr example_vars"
  by (simp add: read_state_def example_state_def example_vars_def state_simps)

lemma stub_prompts:
  "initial_system_message stub_lib l = Inr (system_text l ''<value>'' ''<value>'')"
  "user_msg stub_lib l =
     Inr (user_text l ''<array>'' ''<array>'' ''<array>'' ''<array>'' ''<array>''
            ''<array>'' ''<array>'' ''<value>'')"
  by (simp_all add: initial_system_message_def user_msg_def stub_lib_def and_then_simps)

lemma example_prepare:
  "prepare stub_lib example_state = Inr (example_vars, example_system, example_user)"
  by (simp add: prepare_def example_read stub_prompts and_then_simps example_system_def
        example_user_def)

lemma example_pool_size: "pool_size example_vars = 2" "n_vars example_vars = 2"
  by (simp_all add: example_vars_def)

section \<open>The claims\<close>



lemma parse_prose: "parse_sets stub_lib 2 2 reply_prose = None"
  by (simp add: parse_sets_def stub_lib_def stub_literal_eval_def reply_prose_def reply_good_def
      reply_text_entry_def reply_nested_def reply_tuple_def reply_empty_def)

lemma stub_lib_ascii_fields:
  "str_strip stub_lib_ascii = str_strip stub_lib"
  "literal_eval stub_lib_ascii = literal_eval stub_lib"
  "np_float stub_lib_ascii = np_float stub_lib"
  "np_asarray stub_lib_ascii = np_asarray stub_lib"
  "py_str stub_lib_ascii = py_str stub_lib"
  "arr2str stub_lib_ascii = arr2str stub_lib"
  by (simp_all add: stub_lib_ascii_def)

lemma stub_print: "py_print stub_lib t = None"
  by (simp add: stub_lib_def)

lemma always_reply: "fst (always t n msgs) = t"
  by (simp add: always_def)

text \<open>
  C2, amended. When the statements before the loop do not raise and every reply of the
  model fails the schema check, one call of the agent asks the model exactly
  \<open>max_retries\<close> times (not at all when \<open>max_retries\<close> is below 1), counted in the record
  the model keeps of the calls it receives; and if the notice of the fallback can be
  printed, the call returns, without raising, the state with \<^verbatim>\<open>diverse_pool\<close> the parent
  pool of the input, \<^verbatim>\<open>rationales\<close> the empty list and \<^verbatim>\<open>diversity_report_raw\<close> the last
  reply the model gave (the empty text when it was never asked).
\<close>

theorem fallback_returns_parent_pool:
  assumes "prepare lib st = Inr (l, sys, usr)"
      and "\<forall>orc msgs. parse_sets lib (pool_size l) (n_vars l) (fst (llm orc msgs)) = None"
      and "py_print lib fallback_notice = None"
  shows "let r = diversity_agent_node lib (recording llm) max_retries ([], orc) st;
             seen = fst (llm_after r) in
           length seen = nat max_retries
         \<and> st ''parent_pool'' = Some (parent_pool l)
         \<and> returned r =
             Inr (st(''diverse_pool'' \<mapsto> parent_pool l,
                     ''rationales'' \<mapsto> PList [],
                     ''diversity_report_raw'' \<mapsto>
                        PStr (if seen = [] then [] else reply (last seen))))
         \<and> returned (diversity_agent_node lib llm max_retries orc st) = returned r
         \<and> invocations (diversity_agent_node lib llm max_retries orc st) = seen"
proof -
  let ?s0 = "retry_start sys orc :: 'a retry_state"
  let ?res = "retry_loop lib llm max_retries (pool_size l) (n_vars l) usr ?s0"
  have inv: "sets ?res = None
      \<and> length (calls ?res) = length (calls ?s0) + nat (max_retries - tries ?s0)"
    using assms(2) by (intro retry_loop_all_invalid) (simp_all add: retry_start_fields)
  have raw: "report_raw ?res = (if calls ?res = [] then [] else reply (last (calls ?res)))"
    by (rule retry_loop_report_raw) (simp_all add: retry_start_fields)
  have pp: "st ''parent_pool'' = Some (parent_pool l)"
    using prepare_read [OF assms(1)] read_state_parent_pool by blast
  show ?thesis
    unfolding Let_def recorded_run
    using inv raw pp assms(3)
    by (simp add: node_invocations [OF assms(1)] node_returned [OF assms(1)]
          retry_start_fields)
qed

theorem fallback_returns_parent_pool_witness:
  "prepare stub_lib example_state = Inr (example_vars, example_system, example_user)
   \<and> (\<forall>orc msgs. parse_sets stub_lib (pool_size example_vars) (n_vars example_vars)
                      (fst (always reply_prose orc msgs)) = None)
   \<and> py_print stub_lib fallback_notice = None
   \<and> (let r = diversity_agent_node stub_lib (recording (always reply_prose)) 3 ([], 0)
                 example_state;
           seen = fst (llm_after r) in
           length seen = 3
         \<and> returned r =
             Inr (example_state(''diverse_pool'' \<mapsto> matrix 2 2 [0, 10, 2, 20],
                     ''rationales'' \<mapsto> PList [],
                     ''diversity_report_raw'' \<mapsto>
                        PStr (if seen = [] then [] else reply (last seen)))))"
  using fallback_returns_parent_pool [OF example_prepare, of "always reply_prose" 3 0]
  by (simp add: example_prepare example_pool_size parse_prose always_reply Let_def
        example_vars_def stub_print)

lemma as_numeric_ascii: "as_numeric stub_lib_ascii v = as_numeric stub_lib v"
  by (cases v) (simp_all add: as_numeric_def stub_lib_ascii_fields)

lemma reductions_ascii:
  "np_min stub_lib_ascii v = np_min stub_lib v"
  "np_max stub_lib_ascii v = np_max stub_lib v"
  "np_std stub_lib_ascii v = np_std stub_lib v"
  by (simp_all add: np_min_def np_max_def np_std_def as_numeric_ascii)

lemma render_bounds_ascii: "render_bounds stub_lib_ascii b = render_bounds stub_lib b"
  unfolding render_bounds_def reductions_ascii stub_lib_ascii_fields by (rule refl)

lemma read_state_ascii: "read_state stub_lib_ascii st = read_state stub_lib st"
  unfolding read_state_def reductions_ascii render_bounds_ascii by (rule refl)

lemma prepare_ascii: "prepare stub_lib_ascii st = prepare stub_lib st"
  unfolding prepare_def read_state_ascii initial_system_message_def user_msg_def
    stub_lib_ascii_fields by (rule refl)

lemma example_prepare_ascii:
  "prepare stub_lib_ascii example_state = Inr (example_vars, example_system, example_user)"
  by (simp add: prepare_ascii example_prepare)

lemma notice_not_ascii: "py_print stub_lib_ascii fallback_notice = Some UnicodeEncodeError"
  by (simp add: stub_lib_ascii_def fallback_notice_def)

text \<open>
  C2 as stated fails where standard output encodes ASCII only. Every reply is prose, the
  model is asked three times, and printing the notice of the fallback, which starts with a
  warning sign, raises: the call returns no state.
\<close>

theorem fallback_counterexample:
  "prepare stub_lib_ascii example_state = Inr (example_vars, example_system, example_user)
   \<and> parse_sets stub_lib_ascii 2 2 reply_prose = None
   \<and> length (fst (llm_after (diversity_agent_node stub_lib_ascii (recording (always reply_prose))
                               3 ([], 0) example_state))) = 3
   \<and> returned (diversity_agent_node stub_lib_ascii (always reply_prose) 3 0 example_state)
       = Inl UnicodeEncodeError"
proof -
  have bad: "parse_sets stub_lib_ascii 2 2 t = parse_sets stub_lib 2 2 t" for t
    by (simp add: parse_sets_def stub_lib_ascii_fields)
  let ?res = "retry_loop stub_lib_ascii (always reply_prose) 3 2 2 example_user
                (retry_start example_system 0)"
  have inv: "sets ?res = None
      \<and> length (calls ?res) = length (calls (retry_start example_system (0::nat)))
           + nat (3 - tries (retry_start example_system (0::nat)))"
    by (intro retry_loop_all_invalid) (simp_all add: retry_start_fields bad parse_prose always_reply)
  show ?thesis
    using inv
    by (simp add: example_prepare_ascii bad parse_prose recorded_run
          node_invocations [OF example_prepare_ascii] node_returned [OF example_prepare_ascii]
          example_pool_size retry_start_fields notice_not_ascii)
qed

lemma retry_warning_text:
  "retry_warning ps nv =
     ''\<newline>WARNING: Your previous output was NOT a valid Python list of ''
     @ str_int (int ps) @ '' dicts with '' @ [CHR 0x27] @ ''values'' @ [CHR 0x27]
     @ '' (length '' @ str_int (int nv) @ '') and '' @ [CHR 0x27] @ ''rationale'' @ [CHR 0x27]
     @ ''. The first line must be ONLY that Python list. Try again.''"
  by (simp add: retry_warning_def quote_def)

lemma retry_warning_nonempty: "retry_warning ps nv \<noteq> []"
  by (simp add: retry_warning_def)

text \<open>
  C6. In one call of the agent whose statements before the loop do not raise, look at the
  calls the model received, in order. Every call that is followed by another one got a
  reply that failed the schema check, and the Instruction of the later call is the
  Instruction of the earlier one with the warning notice appended, so it is strictly
  longer; the first Instruction is the system prompt, and the Context of every call is the
  same user prompt.
\<close>

theorem instruction_only_grows:
  assumes "prepare lib st = Inr (l, sys, usr)"
  shows "let seen = fst (llm_after
                      (diversity_agent_node lib (recording llm) max_retries ([], orc) st)) in
           (\<forall>i. Suc i < length seen \<longrightarrow>
                parse_sets lib (pool_size l) (n_vars l) (reply (seen ! i)) = None
              \<and> instruction (seen ! Suc i)
                  = instruction (seen ! i)
                    @ ''\<newline>WARNING: Your previous output was NOT a valid Python list of ''
                    @ str_int (int (pool_size l)) @ '' dicts with '' @ [CHR 0x27] @ ''values''
                    @ [CHR 0x27] @ '' (length '' @ str_int (int (n_vars l)) @ '') and ''
                    @ [CHR 0x27] @ ''rationale'' @ [CHR 0x27]
                    @ ''. The first line must be ONLY that Python list. Try again.''
              \<and> length (instruction (seen ! i)) < length (instruction (seen ! Suc i)))
         \<and> (\<forall>i < length seen.
                context_text (seen ! i) = usr
              \<and> map fst (sent (seen ! i)) = [''system'', ''user''])
         \<and> (seen \<noteq> [] \<longrightarrow> instruction (seen ! 0) = sys)"
proof -
  let ?s0 = "retry_start sys orc :: 'a retry_state"
  let ?w = "retry_warning (pool_size l) (n_vars l)"
  let ?res = "retry_loop lib llm max_retries (pool_size l) (n_vars l) usr ?s0"
  from retry_loop_sent [of lib llm max_retries "pool_size l" "n_vars l" usr ?s0]
  have sent: "\<forall>j < length (calls ?res). sent (calls ?res ! j) =
           [(''system'', sys @ concat (replicate j ?w)), (''user'', usr)]"
    by (auto simp: retry_start_fields)
  from retry_loop_replies [of lib llm max_retries "pool_size l" "n_vars l" usr ?s0]
  have bad: "\<forall>j. Suc j < length (calls ?res)
           \<longrightarrow> parse_sets lib (pool_size l) (n_vars l) (reply (calls ?res ! j)) = None"
    by (auto simp: retry_start_fields)
  have ins: "\<forall>j < length (calls ?res). instruction (calls ?res ! j)
           = sys @ concat (replicate j ?w)"
    using sent by (simp add: instruction_def)
  have ctx: "\<forall>j < length (calls ?res). context_text (calls ?res ! j) = usr"
    using sent by (simp add: context_text_def)
  have grow: "\<forall>i. Suc i < length (calls ?res) \<longrightarrow>
      instruction (calls ?res ! Suc i) = instruction (calls ?res ! i) @ ?w"
  proof (intro allI impI)
    fix i assume i: "Suc i < length (calls ?res)"
    then have "i < length (calls ?res)" by simp
    with ins i show "instruction (calls ?res ! Suc i) = instruction (calls ?res ! i) @ ?w"
      by (simp add: concat_replicate_snoc del: replicate_Suc concat.simps)
  qed
  have longer: "\<forall>i. Suc i < length (calls ?res) \<longrightarrow>
      length (instruction (calls ?res ! i)) < length (instruction (calls ?res ! Suc i))"
    using grow retry_warning_nonempty [of "pool_size l" "n_vars l"] by simp
  have first: "calls ?res \<noteq> [] \<longrightarrow> instruction (calls ?res ! 0) = sys"
    using ins by (cases "calls ?res") auto
  have grow': "\<forall>i. Suc i < length (calls ?res) \<longrightarrow>
      instruction (calls ?res ! Suc i)
        = instruction (calls ?res ! i)
          @ ''\<newline>WARNING: Your previous output was NOT a valid Python list of ''
          @ str_int (int (pool_size l)) @ '' dicts with '' @ [CHR 0x27] @ ''values''
          @ [CHR 0x27] @ '' (length '' @ str_int (int (n_vars l)) @ '') and ''
          @ [CHR 0x27] @ ''rationale'' @ [CHR 0x27]
          @ ''. The first line must be ONLY that Python list. Try again.''"
    using grow unfolding retry_warning_text [of "pool_size l" "n_vars l"] by simp
  show ?thesis
    unfolding Let_def recorded_run(4) node_invocations [OF assms]
    using sent bad ctx grow' longer first by simp
qed

lemma parse_good: "parse_sets stub_lib 2 2 reply_good =
   Some [candidate (PList [PInt 1, PInt 2]) ''a'', candidate (PTuple [PInt 3, PInt 4]) ''b'']"
  by (simp add: parse_sets_def stub_lib_def stub_literal_eval_def item_valid_def candidate_def
       is_array_like_def py_len_def)

lemma example_two_calls:
  "map reply (invocations (diversity_agent_node stub_lib prose_then_good 3 0 example_state))
     = [reply_prose, reply_good]"
  by (simp add: node_invocations [OF example_prepare] example_pool_size retry_loop_step
      retry_loop_stop attempt_def retry_start_def prose_then_good_def parse_prose parse_good)

theorem instruction_only_grows_witness:
  "prepare stub_lib example_state = Inr (example_vars, example_system, example_user)
   \<and> (let seen = fst (llm_after (diversity_agent_node stub_lib (recording prose_then_good) 3
                                   ([], 0) example_state)) in
        length seen = 2
      \<and> parse_sets stub_lib 2 2 (reply (seen ! 0)) = None
      \<and> instruction (seen ! Suc 0)
          = instruction (seen ! 0)
            @ ''\<newline>WARNING: Your previous output was NOT a valid Python list of ''
            @ str_int 2 @ '' dicts with '' @ [CHR 0x27] @ ''values''
            @ [CHR 0x27] @ '' (length '' @ str_int 2 @ '') and ''
            @ [CHR 0x27] @ ''rationale'' @ [CHR 0x27]
            @ ''. The first line must be ONLY that Python list. Try again.''
      \<and> context_text (seen ! 0) = example_user
      \<and> context_text (seen ! 1) = example_user
      \<and> instruction (seen ! 0) = example_system)"
proof -
  let ?seen = "fst (llm_after (diversity_agent_node stub_lib (recording prose_then_good) 3
                                   ([], 0) example_state))"
  let ?w = "''\<newline>WARNING: Your previous output was NOT a valid Python list of ''
            @ str_int 2 @ '' dicts with '' @ [CHR 0x27] @ ''values''
            @ [CHR 0x27] @ '' (length '' @ str_int 2 @ '') and ''
            @ [CHR 0x27] @ ''rationale'' @ [CHR 0x27]
            @ ''. The first line must be ONLY that Python list. Try again.''"
  have "length (map reply ?seen) = 2"
    unfolding recorded_run(4) example_two_calls by simp
  then have len: "length ?seen = 2" by simp
  from instruction_only_grows [OF example_prepare, of prose_then_good 3 0]
  have a: "\<forall>i. Suc i < length ?seen \<longrightarrow>
                parse_sets stub_lib 2 2 (reply (?seen ! i)) = None
              \<and> instruction (?seen ! Suc i) = instruction (?seen ! i) @ ?w"
    and b: "\<forall>i < length ?seen. context_text (?seen ! i) = example_user"
    and c: "?seen \<noteq> [] \<longrightarrow> instruction (?seen ! 0) = example_system"
    unfolding Let_def example_pool_size by simp_all
  from a len have a0: "parse_sets stub_lib 2 2 (reply (?seen ! 0)) = None"
    "instruction (?seen ! Suc 0) = instruction (?seen ! 0) @ ?w"
    by simp_all
  from b len have b0: "context_text (?seen ! 0) = example_user"
    "context_text (?seen ! 1) = example_user"
    by simp_all
  from c len have c0: "instruction (?seen ! 0) = example_system"
    by auto
  show ?thesis
    unfolding Let_def using example_prepare len a0 b0 c0 by blast
qed

section \<open>The schema check\<close>

lemma item_valid_iff:
  "item_valid nv item \<longleftrightarrow>
     (\<exists>kvs v. item = PDict kvs \<and> map_of kvs (PStr ''values'') = Some v
        \<and> map_of kvs (PStr ''rationale'') \<noteq> None
        \<and> ((\<exists>es. (v = PList es \<or> v = PTuple es) \<and> length es = nv)
           \<or> (\<exists>a rest. v = PArray a \<and> shape a = nv # rest)))"
  by (cases item)
     (auto simp: item_valid_def is_array_like_def py_len_def
           split: option.splits pyval.splits list.splits)

lemma parse_sets_Some_iff:
  "parse_sets lib ps nv txt = Some items \<longleftrightarrow>
     literal_eval lib (str_strip lib txt) = Some (PList items)
     \<and> length items = ps \<and> (\<forall>item \<in> set items. item_valid nv item)"
  by (auto simp: parse_sets_def list_all_iff split: option.splits pyval.splits)

text \<open>
  C4, amended. The schema check accepts a reply exactly when the stripped text parses to a
  list of exactly \<open>pool_size\<close> elements, each a dict with the keys \<^verbatim>\<open>values\<close> and
  \<^verbatim>\<open>rationale\<close> whose \<^verbatim>\<open>values\<close> is a list or tuple of exactly \<open>n_vars\<close> entries (or an
  array whose first axis is \<open>n_vars\<close>); the entries themselves are not looked at. What it
  accepts becomes \<^verbatim>\<open>sets\<close>; after any other reply \<^verbatim>\<open>sets\<close> stays \<^verbatim>\<open>None\<close> and the warning
  is appended to the system prompt.
\<close>

theorem schema_check_accepts_iff:
  "(parse_sets lib ps nv txt = Some items \<longleftrightarrow>
      literal_eval lib (str_strip lib txt) = Some (PList items)
      \<and> length items = ps
      \<and> (\<forall>item \<in> set items.
            \<exists>kvs v. item = PDict kvs \<and> map_of kvs (PStr ''values'') = Some v
              \<and> map_of kvs (PStr ''rationale'') \<noteq> None
              \<and> ((\<exists>es. (v = PList es \<or> v = PTuple es) \<and> length es = nv)
                 \<or> (\<exists>a rest. v = PArray a \<and> shape a = nv # rest))))
   \<and> sets (attempt lib llm ps nv usr s)
       = parse_sets lib ps nv (fst (llm (llm_state s) [(''system'', system_message s), (''user'', usr)]))
   \<and> (sets (attempt lib llm ps nv usr s) = None \<longrightarrow>
        system_message (attempt lib llm ps nv usr s)
        = system_message s @ retry_warning ps nv)"
  by (simp add: parse_sets_Some_iff item_valid_iff attempt_fields)

lemma stub_parse_simps:
  "literal_eval stub_lib (str_strip stub_lib t) = stub_literal_eval t"
  by (simp add: stub_lib_def)

lemma reply_distinct:
  "reply_text_entry \<noteq> reply_good" "reply_nested \<noteq> reply_good" "reply_tuple \<noteq> reply_good"
  "reply_nested \<noteq> reply_text_entry" "reply_tuple \<noteq> reply_text_entry"
  "reply_tuple \<noteq> reply_nested"
  "reply_empty \<noteq> reply_good" "reply_empty \<noteq> reply_text_entry"
  "reply_empty \<noteq> reply_nested" "reply_empty \<noteq> reply_tuple"
  by (simp_all add: reply_good_def reply_text_entry_def reply_nested_def reply_tuple_def
        reply_empty_def quote_def)

lemma stub_literal_eval_simps:
  "stub_literal_eval reply_good =
     Some (PList [candidate (PList [PInt 1, PInt 2]) ''a'',
                  candidate (PTuple [PInt 3, PInt 4]) ''b''])"
  "stub_literal_eval reply_text_entry =
     Some (PList [candidate (PList [PInt 1, PStr ''high'']) ''a'',
                  candidate (PList [PInt 3, PInt 4]) ''b''])"
  "stub_literal_eval reply_nested =
     Some (PList [candidate (PList [PList [PInt 1, PInt 2], PList [PInt 3, PInt 4]]) ''a'',
                  candidate (PList [PList [PInt 5, PInt 6], PList [PInt 7, PInt 8]]) ''b''])"
  "stub_literal_eval reply_tuple =
     Some (PTuple [candidate (PList [PInt 1, PInt 2]) ''a'',
                   candidate (PList [PInt 3, PInt 4]) ''b''])"
  "stub_literal_eval reply_empty = Some (PList [])"
  by (simp_all add: stub_literal_eval_def reply_distinct)

theorem schema_check_accepts_iff_witness:
  "parse_sets stub_lib 2 2 reply_good =
     Some [candidate (PList [PInt 1, PInt 2]) ''a'', candidate (PTuple [PInt 3, PInt 4]) ''b'']"
  using schema_check_accepts_iff [of stub_lib 2 2 reply_good
      "[candidate (PList [PInt 1, PInt 2]) ''a'', candidate (PTuple [PInt 3, PInt 4]) ''b'']"
      "always reply_good" "[]" "retry_start example_system 0"]
  by (simp add: stub_parse_simps stub_literal_eval_simps candidate_def)

text \<open>
  C4 as stated fails twice. A reply whose \<^verbatim>\<open>values\<close> hold the text \<^verbatim>\<open>'high'\<close> is accepted,
  though that entry is not numeric; and a reply that is a tuple of two well-formed
  candidates, a sequence of the right length, is rejected.
\<close>

theorem schema_check_counterexample:
  "parse_sets stub_lib 2 2 reply_text_entry \<noteq> None
   \<and> \<not> spec_accepts stub_lib 2 2 reply_text_entry
   \<and> parse_sets stub_lib 2 2 reply_tuple = None
   \<and> spec_accepts stub_lib 2 2 reply_tuple"
  by (simp add: parse_sets_def spec_accepts_def stub_parse_simps stub_literal_eval_simps
      item_valid_def candidate_def is_array_like_def py_len_def spec_sequence_def
      numeric_candidate_def values_entries_def has_rationale_def is_scalar_def
      stub_lib_def stub_np_float_def float64_limit_def)

section \<open>Converting and stacking the accepted candidates\<close>

lemma scalar_shape: "is_scalar v \<Longrightarrow> seq_shape v = Some []"
  by (cases v) (simp_all add: is_scalar_def)

lemma scalar_floats:
  "is_scalar v \<Longrightarrow> flat_floats lib v = and_then (np_float lib v) (\<lambda>x. Inr [x])"
  by (cases v) (simp_all add: is_scalar_def)

lemma nested_shape_scalars:
  "\<forall>v \<in> set vs. is_scalar v \<Longrightarrow> nested_shape (map seq_shape vs) = Some [length vs]"
  by (cases vs) (auto simp: nested_shape_def scalar_shape)

lemma collect_scalars:
  "\<forall>v \<in> set vs. is_scalar v \<Longrightarrow> map (np_float lib) vs = map Inr xs \<Longrightarrow>
   collect (map (flat_floats lib) vs) = Inr (map (\<lambda>x. [x]) xs)"
proof (induction vs arbitrary: xs)
  case Nil
  then show ?case by simp
next
  case (Cons v vs)
  from Cons.prems(2) obtain x xs' where xs: "xs = x # xs'" "np_float lib v = Inr x"
    "map (np_float lib) vs = map Inr xs'"
    by (cases xs) auto
  with Cons show ?case by (simp add: scalar_floats and_then_simps)
qed

lemma concat_singletons: "concat (map (\<lambda>x. [x]) xs) = xs"
  by (induction xs) simp_all

lemma np_array_float_vector:
  assumes "spec_sequence v = Some vs" "\<forall>e \<in> set vs. is_scalar e"
    "map (np_float lib) vs = map Inr xs"
  shows "np_array_float lib v = Inr \<lparr>shape = [length vs], data = xs\<rparr>"
proof -
  from assms(1) have "v = PList vs \<or> v = PTuple vs"
    by (cases v) (simp_all add: spec_sequence_def)
  then show ?thesis
    using collect_scalars [OF assms(2,3)] nested_shape_scalars [OF assms(2)]
    by (auto simp: np_array_float_def and_then_simps concat_singletons)
qed

lemma all_Inr_map:
  "list_all (\<lambda>v. \<not> isl (f v)) vs \<Longrightarrow>
   map f vs = map Inr (map (\<lambda>v. case f v of Inl e \<Rightarrow> d | Inr y \<Rightarrow> y) vs)"
  by (induction vs) (auto split: sum.splits)

lemma item_array:
  assumes "numeric_candidate lib n item"
  shows "and_then (dict_getitem item ''values'') (np_array_float lib)
           = Inr \<lparr>shape = [n], data = float_row lib item\<rparr>"
    and "map Inr (float_row lib item) = float_values lib item"
    and "length (float_row lib item) = n"
proof -
  from assms obtain vs where vs: "values_entries item = Some vs" "length vs = n"
    "list_all (\<lambda>v. is_scalar v \<and> \<not> isl (np_float lib v)) vs"
    by (auto simp: numeric_candidate_def split: option.splits)
  from vs(1) obtain kvs v where item: "item = PDict kvs"
    "map_of kvs (PStr ''values'') = Some v" "spec_sequence v = Some vs"
    by (cases item) (auto simp: values_entries_def split: option.splits)
  from vs(3) have sc: "\<forall>e \<in> set vs. is_scalar e"
    and co: "list_all (\<lambda>v. \<not> isl (np_float lib v)) vs"
    by (auto simp: list_all_iff)
  have fr: "float_row lib item
      = map (\<lambda>v. case np_float lib v of Inl e \<Rightarrow> NaN | Inr y \<Rightarrow> y) vs"
    using vs(1) by (simp add: float_row_def float_values_def comp_def)
  have ms: "map (np_float lib) vs = map Inr (float_row lib item)"
    unfolding fr by (rule all_Inr_map [OF co])
  show "and_then (dict_getitem item ''values'') (np_array_float lib)
           = Inr \<lparr>shape = [n], data = float_row lib item\<rparr>"
    using np_array_float_vector [OF item(3) sc ms] item(1,2) vs(2)
    by (simp add: and_then_def dict_getitem_def)
  show "map Inr (float_row lib item) = float_values lib item"
    using ms vs(1) by (simp add: float_values_def)
  show "length (float_row lib item) = n"
    using vs(2) by (simp add: fr)
qed

lemma not_isl_Inr: "\<not> isl x \<Longrightarrow> \<exists>t. x = Inr t"
  by (cases x) simp_all

lemma item_rationale:
  "printable_rationale lib item \<Longrightarrow>
   \<exists>t. and_then (dict_getitem item ''rationale'') (py_str lib) = Inr t"
  by (cases item)
     (auto simp: printable_rationale_def and_then_def dict_getitem_def
           split: option.splits dest: not_isl_Inr)

lemma collect_map_Inr:
  "\<forall>x \<in> set xs. f x = Inr (g x) \<Longrightarrow> collect (map f xs) = Inr (map g xs)"
  by (induction xs) simp_all

lemma collect_map_exists:
  "\<forall>x \<in> set xs. \<exists>y. f x = Inr y \<Longrightarrow> \<exists>ys. collect (map f xs) = Inr ys"
  by (induction xs) auto

lemma np_vstack_vectors:
  assumes "arrs \<noteq> []" "\<forall>a \<in> set arrs. shape a = [n]"
  shows "np_vstack arrs = Inr \<lparr>shape = [length arrs, n], data = concat (map data arrs)\<rparr>"
proof -
  have sh: "\<forall>a \<in> set arrs. shape (atleast_2d a) = [1, n] \<and> data (atleast_2d a) = data a"
    using assms(2) by (simp add: atleast_2d_def)
  have sum: "sum_list (map (\<lambda>b. hd (shape b)) (map atleast_2d arrs)) = length arrs"
    using sh by (induction arrs) simp_all
  have dat: "map data (map atleast_2d arrs) = map data arrs"
    using sh by simp
  from assms(1) obtain a rest where ar: "arrs = a # rest" by (cases arrs) auto
  have "np_vstack arrs
      = Inr \<lparr>shape = sum_list (map (\<lambda>b. hd (shape b)) (map atleast_2d arrs)) # tl (shape (atleast_2d a)),
             data = concat (map data (map atleast_2d arrs))\<rparr>"
    using sh unfolding ar by (simp add: np_vstack_def)
  then show ?thesis
    unfolding sum dat using sh ar by simp
qed

lemma concat_row:
  "\<forall>r \<in> set rows. length r = n \<Longrightarrow> i < length rows \<Longrightarrow>
   take n (drop (i * n) (concat rows)) = rows ! i"
proof (induction rows arbitrary: i)
  case Nil
  then show ?case by simp
next
  case (Cons r rows)
  show ?case
  proof (cases i)
    case 0
    with Cons.prems show ?thesis by simp
  next
    case (Suc j)
    with Cons show ?thesis by simp
  qed
qed

lemma assemble_pool_numeric:
  assumes "items \<noteq> []"
    and "\<forall>item \<in> set items. numeric_candidate lib n item \<and> printable_rationale lib item"
  shows "assemble_pool lib st items
     = Inr (st(''diverse_pool'' \<mapsto>
              PArray \<lparr>shape = [length items, n], data = concat (map (float_row lib) items)\<rparr>))"
proof -
  let ?arr = "\<lambda>item. \<lparr>shape = [n], data = float_row lib item\<rparr>"
  have a: "collect (map (\<lambda>item. and_then (dict_getitem item ''values'') (np_array_float lib)) items)
      = Inr (map ?arr items)"
    using assms(2) by (intro collect_map_Inr) (simp add: item_array(1))
  obtain rs where r: "collect (map (\<lambda>item. and_then (dict_getitem item ''rationale'')
                                       (py_str lib)) items) = Inr rs"
    using collect_map_exists [of items "\<lambda>item. and_then (dict_getitem item ''rationale'')
                                       (py_str lib)"] item_rationale assms(2)
    by blast
  have v: "np_vstack (map ?arr items)
      = Inr \<lparr>shape = [length (map ?arr items), n], data = concat (map data (map ?arr items))\<rparr>"
    using assms(1) by (intro np_vstack_vectors) auto
  show ?thesis
    by (simp add: assemble_pool_def a r v and_then_simps comp_def)
qed

lemma numeric_candidate_valid:
  "numeric_candidate lib n item \<Longrightarrow> item_valid n item"
  by (cases item)
     (auto simp: numeric_candidate_def values_entries_def has_rationale_def spec_sequence_def
           item_valid_def is_array_like_def py_len_def
           split: option.splits pyval.splits)

lemma node_first_accepted:
  assumes "prepare lib st = Inr (l, sys, usr)" "1 \<le> max_retries"
    and "parse_sets lib (pool_size l) (n_vars l)
           (fst (llm orc [(''system'', sys), (''user'', usr)])) = Some items"
  shows "returned (diversity_agent_node lib llm max_retries orc st) = assemble_pool lib st items"
    and "length (invocations (diversity_agent_node lib llm max_retries orc st)) = 1"
    and "printed (diversity_agent_node lib llm max_retries orc st) = []"
proof -
  let ?s0 = "retry_start sys orc :: 'a retry_state"
  have loop: "retry_loop lib llm max_retries (pool_size l) (n_vars l) usr ?s0
      = attempt lib llm (pool_size l) (n_vars l) usr ?s0"
    using assms(2,3) by (intro retry_loop_first_accepted [where items = items])
      (simp_all add: retry_start_fields)
  show "returned (diversity_agent_node lib llm max_retries orc st) = assemble_pool lib st items"
    using assms(3) by (simp add: node_returned [OF assms(1)] loop attempt_fields retry_start_fields)
  show "length (invocations (diversity_agent_node lib llm max_retries orc st)) = 1"
    by (simp add: node_invocations [OF assms(1)] loop attempt_fields retry_start_fields)
  show "printed (diversity_agent_node lib llm max_retries orc st) = []"
    using assms(3) by (simp add: node_printed [OF assms(1)] loop attempt_fields retry_start_fields)
qed

lemma node_last_accepted:
  assumes p: "prepare lib st = Inr (l, sys, usr)"
    and ne: "invocations (diversity_agent_node lib llm max_retries orc st) \<noteq> []"
    and ok: "parse_sets lib (pool_size l) (n_vars l)
           (reply (last (invocations (diversity_agent_node lib llm max_retries orc st))))
         = Some items"
  shows "returned (diversity_agent_node lib llm max_retries orc st) = assemble_pool lib st items"
    and "printed (diversity_agent_node lib llm max_retries orc st) = []"
proof -
  let ?s0 = "retry_start sys orc :: 'a retry_state"
  let ?res = "retry_loop lib llm max_retries (pool_size l) (n_vars l) usr ?s0"
  have "0 < max_retries"
  proof (rule ccontr)
    assume "\<not> 0 < max_retries"
    then have "?res = ?s0" by (simp add: retry_loop_stop retry_start_fields)
    then show False using ne by (simp add: node_invocations [OF p] retry_start_fields)
  qed
  then have "sets ?res = parse_sets lib (pool_size l) (n_vars l) (reply (last (calls ?res)))"
    by (intro conjunct2 [OF conjunct2 [OF retry_loop_last_reply]])
       (simp_all add: retry_start_fields)
  then have s: "sets ?res = Some items"
    using ok by (simp add: node_invocations [OF p])
  show "returned (diversity_agent_node lib llm max_retries orc st) = assemble_pool lib st items"
    by (simp add: node_returned [OF p] s)
  show "printed (diversity_agent_node lib llm max_retries orc st) = []"
    by (simp add: node_printed [OF p] s)
qed

text \<open>
  C1, amended. Let the statements before the loop not raise, and let the pool hold at least
  one candidate. If the last reply that the model gave in the call parses to a list of
  exactly \<open>pool_size\<close> dicts, each with a \<^verbatim>\<open>rationale\<close> that \<^verbatim>\<open>str\<close> turns into a text and
  with \<^verbatim>\<open>values\<close> a list or tuple of \<open>n_vars\<close> scalars that numpy converts to floats, then
  the call returns the state with \<^verbatim>\<open>diverse_pool\<close> a matrix of shape
  \<open>(pool_size, n_vars)\<close> whose row \<open>i\<close> is the converted \<^verbatim>\<open>values\<close> of the \<open>i\<close>-th element
  of that reply. The reply may be the first or come after retries.
\<close>

theorem numeric_reply_becomes_pool:
  assumes "prepare lib st = Inr (l, sys, usr)"
    and "seen = fst (llm_after
                  (diversity_agent_node lib (recording llm) max_retries ([], orc) st))"
    and "seen \<noteq> []"
    and "literal_eval lib (str_strip lib (reply (last seen))) = Some (PList items)"
    and "length items = pool_size l" and "1 \<le> pool_size l"
    and "\<forall>item \<in> set items.
           numeric_candidate lib (n_vars l) item \<and> printable_rationale lib item"
  shows "\<exists>a. returned (diversity_agent_node lib llm max_retries orc st)
               = Inr (st(''diverse_pool'' \<mapsto> PArray a))
           \<and> shape a = [pool_size l, n_vars l]
           \<and> (\<forall>i < pool_size l. map Inr (row a i) = float_values lib (items ! i))"
proof -
  let ?a = "\<lparr>shape = [length items, n_vars l], data = concat (map (float_row lib) items)\<rparr>"
  have seen: "seen = invocations (diversity_agent_node lib llm max_retries orc st)"
    using assms(2) by (simp add: recorded_run)
  have "\<forall>item \<in> set items. item_valid (n_vars l) item"
    using assms(7) numeric_candidate_valid by blast
  then have parse: "parse_sets lib (pool_size l) (n_vars l)
           (reply (last (invocations (diversity_agent_node lib llm max_retries orc st))))
         = Some items"
    using assms(4,5) seen by (simp add: parse_sets_Some_iff)
  have ne: "items \<noteq> []" using assms(5,6) by auto
  have ret: "returned (diversity_agent_node lib llm max_retries orc st)
      = Inr (st(''diverse_pool'' \<mapsto> PArray ?a))"
    using node_last_accepted(1) [OF assms(1) _ parse] assms(3) seen
      assemble_pool_numeric [OF ne assms(7)]
    by simp
  have rows: "\<forall>i < pool_size l. map Inr (row ?a i) = float_values lib (items ! i)"
  proof (intro allI impI)
    fix i assume i: "i < pool_size l"
    then have mem: "items ! i \<in> set items" using assms(5) by simp
    have "\<forall>r \<in> set (map (float_row lib) items). length r = n_vars l"
      using assms(7) item_array(3) by auto
    then have "take (n_vars l) (drop (i * n_vars l) (concat (map (float_row lib) items)))
        = map (float_row lib) items ! i"
      using i assms(5) by (intro concat_row) simp_all
    then have "row ?a i = float_row lib (items ! i)"
      using i assms(5) by (simp add: row_def)
    then show "map Inr (row ?a i) = float_values lib (items ! i)"
      using item_array(2) [of lib "n_vars l" "items ! i"] assms(7) mem by simp
  qed
  show ?thesis
    using ret rows assms(5) by (intro exI [of _ ?a]) simp
qed

lemmas candidate_simps = candidate_def numeric_candidate_def values_entries_def
  has_rationale_def spec_sequence_def is_scalar_def float_values_def stub_lib_def
  stub_np_float_def float64_limit_def printable_rationale_def

theorem numeric_reply_becomes_pool_witness:
  "map reply (fst (llm_after (diversity_agent_node stub_lib (recording prose_then_good) 3
                                ([], 0) example_state)))
     = [reply_prose, reply_good]
   \<and> (\<exists>a. returned (diversity_agent_node stub_lib prose_then_good 3 0 example_state)
          = Inr (example_state(''diverse_pool'' \<mapsto> PArray a))
      \<and> shape a = [2, 2]
      \<and> row a 0 = [Num 1, Num 2] \<and> row a 1 = [Num 3, Num 4])"
proof -
  let ?seen = "fst (llm_after (diversity_agent_node stub_lib (recording prose_then_good) 3
                                ([], 0) example_state))"
  let ?items = "[candidate (PList [PInt 1, PInt 2]) ''a'',
                 candidate (PTuple [PInt 3, PInt 4]) ''b'']"
  have replies: "map reply ?seen = [reply_prose, reply_good]"
    unfolding recorded_run(4) by (rule example_two_calls)
  then have ne: "?seen \<noteq> []" by auto
  have "reply (last ?seen) = last (map reply ?seen)"
    using ne by (simp add: last_map)
  then have last: "reply (last ?seen) = reply_good"
    unfolding replies by simp
  have parse: "literal_eval stub_lib (str_strip stub_lib (reply (last ?seen)))
      = Some (PList ?items)"
    unfolding last by (simp add: stub_parse_simps stub_literal_eval_simps)
  have cands: "\<forall>item \<in> set ?items.
      numeric_candidate stub_lib (n_vars example_vars) item \<and> printable_rationale stub_lib item"
    by (simp add: example_pool_size candidate_simps)
  from numeric_reply_becomes_pool [OF example_prepare refl ne parse _ _ cands]
  obtain a where
    a: "returned (diversity_agent_node stub_lib prose_then_good 3 0 example_state)
          = Inr (example_state(''diverse_pool'' \<mapsto> PArray a))"
       "shape a = [pool_size example_vars, n_vars example_vars]"
       "\<forall>i < pool_size example_vars. map Inr (row a i) = float_values stub_lib (?items ! i)"
    by (auto simp: example_pool_size)
  from a(3) have "map Inr (row a 0) = float_values stub_lib (?items ! 0)"
    and "map Inr (row a 1) = float_values stub_lib (?items ! 1)"
    by (simp_all add: example_pool_size)
  then have rows: "row a 0 = [Num 1, Num 2]" "row a 1 = [Num 3, Num 4]"
    by (auto simp: candidate_simps map_eq_Cons_conv)
  have sh: "shape a = [2, 2]"
    using a(2) by (simp add: example_pool_size)
  show ?thesis
    using a(1) sh rows replies by blast
qed

lemma parse_nested: "parse_sets stub_lib 2 2 reply_nested =
   Some [candidate (PList [PList [PInt 1, PInt 2], PList [PInt 3, PInt 4]]) ''a'',
         candidate (PList [PList [PInt 5, PInt 6], PList [PInt 7, PInt 8]]) ''b'']"
  by (simp add: parse_sets_def stub_parse_simps stub_literal_eval_simps item_valid_def
       candidate_def is_array_like_def py_len_def)

lemma parse_text_entry: "parse_sets stub_lib 2 2 reply_text_entry =
   Some [candidate (PList [PInt 1, PStr ''high'']) ''a'', candidate (PList [PInt 3, PInt 4]) ''b'']"
  by (simp add: parse_sets_def stub_parse_simps stub_literal_eval_simps item_valid_def
       candidate_def is_array_like_def py_len_def)

lemma parse_empty: "parse_sets stub_lib 0 2 reply_empty = Some []"
  by (simp add: parse_sets_def stub_parse_simps stub_literal_eval_simps)

lemmas numpy_simps = assemble_pool_def candidate_def dict_getitem_def and_then_def
  np_array_float_def nested_shape_def stub_lib_def stub_np_float_def float64_limit_def np_vstack_def
  atleast_2d_def matrix_def eval_nat_numeral

lemma assemble_nested: "assemble_pool stub_lib st
    [candidate (PList [PList [PInt 1, PInt 2], PList [PInt 3, PInt 4]]) ''a'',
     candidate (PList [PList [PInt 5, PInt 6], PList [PInt 7, PInt 8]]) ''b'']
  = Inr (st(''diverse_pool'' \<mapsto> matrix 4 2 [1, 2, 3, 4, 5, 6, 7, 8]))"
  by (simp add: numpy_simps)

lemma assemble_text_entry: "assemble_pool stub_lib st
    [candidate (PList [PInt 1, PStr ''high'']) ''a'', candidate (PList [PInt 3, PInt 4]) ''b'']
  = Inl ValueError"
  by (simp add: numpy_simps)

lemma assemble_empty: "assemble_pool stub_lib st [] = Inl ValueError"
  by (simp add: numpy_simps)

lemma example_empty_read:
  "\<exists>l. read_state stub_lib example_state_empty = Inr l \<and> pool_size l = 0 \<and> n_vars l = 2"
  by (simp add: read_state_def example_state_empty_def example_state_def state_simps)

lemma example_empty_prepare:
  "\<exists>l sys usr. prepare stub_lib example_state_empty = Inr (l, sys, usr)
     \<and> pool_size l = 0 \<and> n_vars l = 2"
  using example_empty_read by (auto simp: prepare_def stub_prompts and_then_simps)

text \<open>
  C1 as stated fails. A reply of two dicts whose \<^verbatim>\<open>values\<close> have length 2, as the pool
  asks, but hold lists instead of numbers, passes the schema check and comes back as a
  pool of four rows instead of two. And for a pool of no candidates the reply \<^verbatim>\<open>[]\<close> is
  exactly such a list, and stacking no arrays raises. With \<open>max_retries\<close> 0 the model is
  never asked, and the parent pool comes back.
\<close>

theorem numeric_reply_counterexample:
  "read_state stub_lib example_state = Inr example_vars
   \<and> pool_size example_vars = 2 \<and> n_vars example_vars = 2
   \<and> parse_sets stub_lib 2 2 reply_nested =
       Some [candidate (PList [PList [PInt 1, PInt 2], PList [PInt 3, PInt 4]]) ''a'',
             candidate (PList [PList [PInt 5, PInt 6], PList [PInt 7, PInt 8]]) ''b'']
   \<and> returned (diversity_agent_node stub_lib (always reply_nested) 10 0 example_state)
       = Inr (example_state(''diverse_pool'' \<mapsto> matrix 4 2 [1, 2, 3, 4, 5, 6, 7, 8]))
   \<and> parse_sets stub_lib 0 2 reply_empty = Some []
   \<and> returned (diversity_agent_node stub_lib (always reply_empty) 10 0 example_state_empty)
       = Inl ValueError
   \<and> returned (diversity_agent_node stub_lib (always reply_good) 0 0 example_state)
       = Inr (example_state(''diverse_pool'' \<mapsto> matrix 2 2 [0, 10, 2, 20],
                           ''rationales'' \<mapsto> PList [],
                           ''diversity_report_raw'' \<mapsto> PStr []))"
proof -
  have none: "returned (diversity_agent_node stub_lib (always reply_good) 0 0 example_state)
       = Inr (example_state(''diverse_pool'' \<mapsto> matrix 2 2 [0, 10, 2, 20],
                           ''rationales'' \<mapsto> PList [],
                           ''diversity_report_raw'' \<mapsto> PStr []))"
    by (simp add: node_returned [OF example_prepare] retry_loop_stop retry_start_fields
          example_vars_def stub_print)
  have nested: "returned (diversity_agent_node stub_lib (always reply_nested) 10 0 example_state)
       = Inr (example_state(''diverse_pool'' \<mapsto> matrix 4 2 [1, 2, 3, 4, 5, 6, 7, 8]))"
    using node_first_accepted(1) [where llm = "always reply_nested" and orc = 0
        and max_retries = 10, OF example_prepare]
    by (simp add: always_reply example_pool_size parse_nested assemble_nested)
  from example_empty_prepare obtain l sys usr where
    l: "prepare stub_lib example_state_empty = Inr (l, sys, usr)" "pool_size l = 0" "n_vars l = 2"
    by blast
  have empty: "returned (diversity_agent_node stub_lib (always reply_empty) 10 0 example_state_empty)
       = Inl ValueError"
    using node_first_accepted(1) [where llm = "always reply_empty" and orc = 0
        and max_retries = 10, OF l(1)]
    by (simp add: always_reply l(2,3) parse_empty assemble_empty)
  show ?thesis
    using nested empty none
    by (simp add: example_read example_pool_size parse_nested parse_empty)
qed

text \<open>
  C5 fails on the code. A reply with the text \<^verbatim>\<open>'high'\<close> among its \<^verbatim>\<open>values\<close> passes the
  schema check on the first call; the conversion of the values to floats, which is outside
  the \<^verbatim>\<open>try\<close> block, then raises, and the call returns no state.
\<close>

theorem text_entry_raises:
  "parse_sets stub_lib 2 2 reply_text_entry =
     Some [candidate (PList [PInt 1, PStr ''high'']) ''a'',
           candidate (PList [PInt 3, PInt 4]) ''b'']
   \<and> returned (diversity_agent_node stub_lib (always reply_text_entry) 10 0 example_state)
       = Inl ValueError
   \<and> length (invocations (diversity_agent_node stub_lib (always reply_text_entry) 10 0
                example_state)) = 1"
  using node_first_accepted(1,2) [where llm = "always reply_text_entry" and orc = 0
        and max_retries = 10, OF example_prepare]
  by (simp add: always_reply example_pool_size parse_text_entry assemble_text_entry)

lemma stub_lib_digits_fields:
  "str_strip stub_lib_digits = str_strip stub_lib"
  "np_float stub_lib_digits = np_float stub_lib"
  "np_asarray stub_lib_digits = np_asarray stub_lib"
  "arr2str stub_lib_digits = arr2str stub_lib"
  "py_print stub_lib_digits = py_print stub_lib"
  "py_str stub_lib_digits = stub_py_str"
  by (simp_all add: stub_lib_digits_def)

lemma stub_py_str_float: "stub_py_str (PFloat x) = py_str stub_lib (PFloat x)"
  by (simp add: stub_py_str_def stub_lib_def)

lemma digits_small: "\<bar>i\<bar> < 1000 \<Longrightarrow> stub_py_str (PInt i) = Inr ''<value>''"
proof -
  assume i: "\<bar>i\<bar> < 1000"
  have "(10::int) ^ 3 \<le> 10 ^ int_max_str_digits"
    by (rule power_increasing) (simp_all add: int_max_str_digits_def)
  then have "\<bar>i\<bar> < 10 ^ int_max_str_digits" using i by simp
  then show ?thesis by (simp add: stub_py_str_def)
qed

lemma digits_huge: "stub_py_str (PInt huge_int) = Inl ValueError"
proof -
  have "(10::int) ^ 43 \<le> 16 ^ 36" by simp
  then have le: "((10::int) ^ 43) ^ 100 \<le> (16 ^ 36) ^ 100"
    by (rule power_mono) simp
  have d: "int_max_str_digits = 43 * 100"
    by (simp add: int_max_str_digits_def)
  have lhs: "(10::int) ^ int_max_str_digits = (10 ^ 43) ^ 100"
    unfolding d by (rule power_mult)
  have h: "(36::nat) * 100 = 3600" by simp
  have "huge_int = 16 ^ (36 * 100)"
    unfolding huge_int_def h by (rule refl)
  then have rhs: "huge_int = (16 ^ 36) ^ 100"
    by (simp only: power_mult)
  have "0 \<le> huge_int"
    unfolding huge_int_def by (rule zero_le_power) simp
  then have "\<bar>huge_int\<bar> = (16 ^ 36) ^ 100"
    using rhs by (simp only: abs_of_nonneg)
  then have "10 ^ int_max_str_digits \<le> \<bar>huge_int\<bar>"
    using le lhs by (simp only:)
  then show ?thesis by (simp add: stub_py_str_def)
qed

lemma as_numeric_digits: "as_numeric stub_lib_digits v = as_numeric stub_lib v"
  by (cases v) (simp_all add: as_numeric_def stub_lib_digits_fields)

lemma reductions_digits:
  "np_min stub_lib_digits v = np_min stub_lib v"
  "np_max stub_lib_digits v = np_max stub_lib v"
  "np_std stub_lib_digits v = np_std stub_lib v"
  by (simp_all add: np_min_def np_max_def np_std_def as_numeric_digits)

lemma render_bounds_digits: "render_bounds stub_lib_digits b = render_bounds stub_lib b"
  unfolding render_bounds_def reductions_digits stub_lib_digits_fields stub_py_str_float
  by (rule refl)

lemma read_state_digits: "read_state stub_lib_digits st = read_state stub_lib st"
  unfolding read_state_def reductions_digits render_bounds_digits by (rule refl)

lemma example_prepare_digits:
  "prepare stub_lib_digits example_state = Inr (example_vars, example_system, example_user)"
proof -
  have sys: "initial_system_message stub_lib_digits example_vars = Inr example_system"
    by (simp add: initial_system_message_def stub_lib_digits_fields example_system_def
          and_then_simps digits_small example_vars_def)
  have "user_msg stub_lib_digits example_vars = user_msg stub_lib example_vars"
    by (simp add: user_msg_def stub_lib_digits_fields digits_small example_vars_def
          stub_lib_def)
  then have usr: "user_msg stub_lib_digits example_vars = Inr example_user"
    by (simp add: stub_prompts example_user_def)
  show ?thesis
    by (simp add: prepare_def read_state_digits example_read sys usr and_then_simps)
qed

lemma parse_huge: "parse_sets stub_lib_digits 2 2 reply_huge = Some huge_candidates"
  by (simp add: parse_sets_def stub_lib_digits_def stub_lib_def huge_candidates_def
        item_valid_def candidate_def is_array_like_def py_len_def)

lemma assemble_huge: "assemble_pool stub_lib_digits st huge_candidates = Inl ValueError"
  by (simp add: assemble_pool_def huge_candidates_def candidate_def dict_getitem_def
        and_then_def np_array_float_def nested_shape_def stub_lib_digits_fields stub_lib_def
        stub_np_float_def float64_limit_def digits_huge)

text \<open>
  Why the text of every \<^verbatim>\<open>rationale\<close> matters. The reply \<open>reply_huge\<close> passes the schema
  check on the first call, and both its \<^verbatim>\<open>values\<close> are lists of two integers; but
  \<^verbatim>\<open>str\<close> of its first \<^verbatim>\<open>rationale\<close>, an integer of more than 4300 digits, raises in line
  153, and the call returns no state.
\<close>

lemma huge_rationale_raises:
  "prepare stub_lib_digits example_state = Inr (example_vars, example_system, example_user)
   \<and> parse_sets stub_lib_digits 2 2 reply_huge = Some huge_candidates
   \<and> list_all (numeric_candidate stub_lib_digits 2) huge_candidates
   \<and> \<not> printable_rationale stub_lib_digits (hd huge_candidates)
   \<and> returned (diversity_agent_node stub_lib_digits (always reply_huge) 10 0 example_state)
       = Inl ValueError"
proof -
  have run: "returned (diversity_agent_node stub_lib_digits (always reply_huge) 10 0 example_state)
       = Inl ValueError"
    using node_first_accepted(1) [where llm = "always reply_huge" and orc = 0
        and max_retries = 10, OF example_prepare_digits]
    by (simp add: always_reply example_pool_size parse_huge assemble_huge)
  have cand: "list_all (numeric_candidate stub_lib_digits 2) huge_candidates"
    by (simp add: huge_candidates_def candidate_def numeric_candidate_def values_entries_def
          has_rationale_def spec_sequence_def is_scalar_def stub_lib_digits_fields stub_lib_def
          stub_np_float_def float64_limit_def)
  have unprintable: "\<not> printable_rationale stub_lib_digits (hd huge_candidates)"
    by (simp add: huge_candidates_def printable_rationale_def stub_lib_digits_fields digits_huge)
  show ?thesis
    using run cand unprintable by (simp add: example_prepare_digits parse_huge)
qed

section \<open>The returned state\<close>










section \<open>The prompts depend on seven keys\<close>

lemma read_state_cong:
  assumes "\<forall>k \<in> context_keys. st1 k = st2 k"
  shows "read_state lib st1 = read_state lib st2"
proof -
  have "st1 ''parent_pool'' = st2 ''parent_pool''"
    "st1 ''parent_objectives'' = st2 ''parent_objectives''"
    "st1 ''most_recent'' = st2 ''most_recent''"
    "st1 ''all_para'' = st2 ''all_para''"
    "st1 ''bounds'' = st2 ''bounds''"
    "st1 ''budget'' = st2 ''budget''"
    "st1 ''summary'' = st2 ''summary''"
    using assms by (simp_all add: context_keys_def)
  then show ?thesis
    by (simp add: read_state_def getitem_def get_default_def)
qed

lemma first_call_sent:
  assumes "prepare lib st = Inr (l, sys, usr)"
  shows "map sent (take 1 (invocations (diversity_agent_node lib llm max_retries orc st)))
     = (if 1 \<le> max_retries then [[(''system'', sys), (''user'', usr)]] else [])"
proof -
  let ?s0 = "retry_start sys orc :: 'a retry_state"
  let ?res = "retry_loop lib llm max_retries (pool_size l) (n_vars l) usr ?s0"
  show ?thesis
  proof (cases "1 \<le> max_retries")
    case False
    then have "?res = ?s0" by (simp add: retry_loop_stop retry_start_fields)
    with False show ?thesis by (simp add: node_invocations [OF assms] retry_start_fields)
  next
    case True
    then have "length (calls ?s0) < length (calls ?res)"
      by (intro retry_loop_calls_lower) (simp_all add: retry_start_fields)
    then have ne: "calls ?res \<noteq> []" by auto
    from retry_loop_sent [of lib llm max_retries "pool_size l" "n_vars l" usr ?s0]
    have "\<forall>j < length (calls ?res). sent (calls ?res ! j) =
           [(''system'', sys @ concat (replicate j (retry_warning (pool_size l) (n_vars l)))),
            (''user'', usr)]"
      by (auto simp: retry_start_fields)
    with ne have "sent (calls ?res ! 0) = [(''system'', sys), (''user'', usr)]"
      by (cases "calls ?res") auto
    with ne True show ?thesis
      by (cases "calls ?res") (simp_all add: node_invocations [OF assms])
  qed
qed

text \<open>
  C7. Two runs of the same agent on states that agree on \<^verbatim>\<open>parent_pool\<close>,
  \<^verbatim>\<open>parent_objectives\<close>, \<^verbatim>\<open>most_recent\<close>, \<^verbatim>\<open>all_para\<close>, \<^verbatim>\<open>bounds\<close>, \<^verbatim>\<open>budget\<close> and
  \<^verbatim>\<open>summary\<close> compute the same local variables, hence the same system and user prompt,
  and send the same messages in their first call to the model, whatever else the states
  hold and whatever the two models are and answer. (The library functions, \<^verbatim>\<open>arr2str\<close>
  among them, are functions of their arguments.)
\<close>

theorem prompts_deterministic:
  assumes "\<forall>k \<in> context_keys. st1 k = st2 k"
  shows "read_state lib st1 = read_state lib st2
       \<and> map sent (take 1 (invocations (diversity_agent_node lib llm1 max_retries orc1 st1)))
         = map sent (take 1 (invocations (diversity_agent_node lib llm2 max_retries orc2 st2)))"
proof -
  have eq: "read_state lib st1 = read_state lib st2"
    by (rule read_state_cong [OF assms])
  then have peq: "prepare lib st1 = prepare lib st2"
    by (simp add: prepare_def)
  show ?thesis
  proof (cases "prepare lib st1")
    case (Inl e)
    with peq have r2: "prepare lib st2 = Inl e" by simp
    show ?thesis using eq by (simp add: diversity_agent_node_def Inl r2)
  next
    case (Inr p)
    obtain l sys usr where p: "p = (l, sys, usr)" by (cases p) auto
    have r1: "prepare lib st1 = Inr (l, sys, usr)" using Inr p by simp
    with peq have r2: "prepare lib st2 = Inr (l, sys, usr)" by simp
    show ?thesis
      using first_call_sent [OF r1, of llm1 max_retries orc1]
        first_call_sent [OF r2, of llm2 max_retries orc2] eq
      by simp
  qed
qed

theorem prompts_deterministic_witness:
  "example_state ''diverse_pool'' \<noteq> example_state_again ''diverse_pool''
   \<and> read_state stub_lib example_state_again = Inr example_vars
   \<and> map sent (take 1 (invocations
         (diversity_agent_node stub_lib (always reply_good) 3 0 example_state)))
     = map sent (take 1 (invocations
         (diversity_agent_node stub_lib prose_then_good 3 0 example_state_again)))"
proof -
  have k: "\<forall>k \<in> context_keys. example_state k = example_state_again k"
    by (simp add: context_keys_def example_state_again_def)
  have d: "example_state ''diverse_pool'' \<noteq> example_state_again ''diverse_pool''"
    by (simp add: example_state_again_def example_state_def)
  from prompts_deterministic [OF k, of stub_lib "always reply_good" 3 0 prose_then_good 0]
  show ?thesis using d by (simp add: example_read)
qed

section \<open>The history window and its spread\<close>

lemma read_state_window:
  assumes "read_state lib st = Inr l"
  shows "\<exists>pp start. st ''parent_pool'' = Some pp
      \<and> most_recent l = get_default st ''most_recent'' (PInt 100)
      \<and> neg_index (most_recent l) = Inr start
      \<and> slice_from start (get_default st ''all_para'' pp) = Inr (all_para l)
      \<and> np_std lib (all_para l) = Inr (param_diversity l)"
  using assms
  by (auto simp: read_state_def and_then_def getitem_def Let_def split: option.splits sum.splits)

lemma history_get_default:
  "st ''parent_pool'' = Some pp \<Longrightarrow> history st = Some (get_default st ''all_para'' pp)"
  by (simp add: history_def get_default_def split: option.splits)

lemma reals_of_Num: "reals_of (map Num col) = Some col"
  by (induction col) simp_all

lemma np_std_1d_population:
  "col \<noteq> [] \<Longrightarrow> np_std_1d (map Num col) = Num (population_sd col)"
  by (simp add: np_std_1d_def reals_of_Num population_sd_def np_mean_def arith_mean_def)

lemma slice_start_recent:
  "1 \<le> k \<Longrightarrow> slice_start (- k) R = R - min (nat k) R"
  by (auto simp: slice_start_def)

lemma column_shift:
  "map (\<lambda>r. f (s + r)) [0..<K] = map f [s..<s + K]"
proof -
  have "map f [s..<s + K] = map f (map (\<lambda>r. r + s) [0..<K])"
    by (simp add: map_add_upt add.commute)
  then show ?thesis by (simp add: comp_def add.commute)
qed

text \<open>
  C8, amended. For a history that is a matrix of \<open>R\<close> rows (at least one) and \<open>n\<close> columns of
  numbers, and a window size \<^verbatim>\<open>most_recent\<close> of \<open>k\<close> (at least 1; 100 when the state has
  none), the window is the last \<open>min k R\<close> rows of the history (\<^verbatim>\<open>all_para\<close>, or the parent
  pool when the state has none), and the diversity report is a vector of length \<open>n\<close> whose
  entry \<open>i\<close> is the population standard deviation (divisor: the number of rows) of column
  \<open>i\<close> of the window.
\<close>

theorem diversity_is_population_sd:
  assumes "read_state lib st = Inr l"
    and "history st = Some (PArray h)"
    and "shape h = [R, n]" and "data h = map Num xs" and "length xs = R * n"
    and "get_default st ''most_recent'' (PInt 100) = PInt k"
    and "1 \<le> k" and "1 \<le> R"
  shows "let K = min (nat k) R in
           all_para l = PArray \<lparr>shape = [K, n], data = map Num (drop ((R - K) * n) xs)\<rparr>
         \<and> shape (param_diversity l) = [n]
         \<and> length (data (param_diversity l)) = n
         \<and> (\<forall>i < n. data (param_diversity l) ! i
                = Num (population_sd (map (\<lambda>r. xs ! (r * n + i)) [R - K..<R])))"
proof -
  define K where "K = min (nat k) R"
  define s where "s = R - K"
  have K: "1 \<le> K" "K \<le> R" "s + K = R"
    using assms(7,8) by (auto simp: K_def s_def)
  from read_state_window [OF assms(1)] obtain pp start where
    pp: "st ''parent_pool'' = Some pp"
    and mr: "most_recent l = get_default st ''most_recent'' (PInt 100)"
    and ni: "neg_index (most_recent l) = Inr start"
    and sl: "slice_from start (get_default st ''all_para'' pp) = Inr (all_para l)"
    and sd: "np_std lib (all_para l) = Inr (param_diversity l)"
    by blast
  have hist: "get_default st ''all_para'' pp = PArray h"
    using history_get_default [where st = st, OF pp] assms(2) by simp
  have start: "start = - k"
    using ni mr assms(6) by (simp add: neg_index_def)
  let ?w = "\<lparr>shape = [K, n], data = map Num (drop (s * n) xs)\<rparr>"
  have win: "all_para l = PArray ?w"
    using sl unfolding hist start
    by (simp add: slice_from_def assms(3,4) Let_def slice_start_recent [OF assms(7)]
          K_def s_def drop_map)
  have pd: "param_diversity l =
      \<lparr>shape = [n],
       data = map (\<lambda>j. np_std_1d (map (\<lambda>r. data ?w ! (r * n + j)) [0..<K])) [0..<n]\<rparr>"
    using sd unfolding win
    by (simp add: np_std_def as_numeric_def and_then_def np_std_axis0_def Let_def)
  have col: "np_std_1d (map (\<lambda>r. data ?w ! (r * n + i)) [0..<K])
      = Num (population_sd (map (\<lambda>r. xs ! (r * n + i)) [s..<R]))" if i: "i < n" for i
  proof -
    have idx: "data ?w ! (r * n + i) = Num (xs ! ((s + r) * n + i))" if r: "r < K" for r
    proof -
      have "Suc r \<le> K" using r by simp
      then have "Suc r * n \<le> K * n" by (rule mult_le_mono1)
      then have "r * n + i < K * n" using i by simp
      moreover have "length xs = s * n + K * n"
        using assms(5) K(3) by (simp add: add_mult_distrib [symmetric])
      ultimately show ?thesis
        by (simp add: add_mult_distrib add.assoc)
    qed
    have "map (\<lambda>r. data ?w ! (r * n + i)) [0..<K]
        = map Num (map (\<lambda>r. xs ! ((s + r) * n + i)) [0..<K])"
      using idx by simp
    also have "map (\<lambda>r. xs ! ((s + r) * n + i)) [0..<K] = map (\<lambda>r. xs ! (r * n + i)) [s..<s + K]"
      by (rule column_shift [of "\<lambda>r. xs ! (r * n + i)"])
    finally have a: "map (\<lambda>r. data ?w ! (r * n + i)) [0..<K]
        = map Num (map (\<lambda>r. xs ! (r * n + i)) [s..<R])"
      using K(3) by simp
    have b: "map (\<lambda>r. xs ! (r * n + i)) [s..<R] \<noteq> []"
      using K by auto
    show ?thesis
      unfolding a by (rule np_std_1d_population [OF b])
  qed
  show ?thesis
    unfolding Let_def K_def [symmetric] s_def [symmetric]
    using win col by (simp add: pd)
qed

lemma example_window_read:
  "\<exists>l. read_state stub_lib example_state_window = Inr l"
  by (simp add: read_state_def example_state_window_def example_state_def state_simps)

theorem diversity_is_population_sd_witness:
  "\<exists>l. read_state stub_lib example_state_window = Inr l
      \<and> history example_state_window = Some (matrix 3 2 [100, 7, 0, 10, 2, 20])
      \<and> all_para l = matrix 2 2 [0, 10, 2, 20]
      \<and> shape (param_diversity l) = [2]
      \<and> data (param_diversity l) ! 0 = Num (population_sd [0, 2])
      \<and> data (param_diversity l) ! 1 = Num (population_sd [10, 20])"
proof -
  from example_window_read obtain l where l: "read_state stub_lib example_state_window = Inr l"
    by blast
  have h: "history example_state_window
      = Some (PArray \<lparr>shape = [3, 2], data = map Num [100, 7, 0, 10, 2, 20]\<rparr>)"
    by (simp add: history_def example_state_window_def matrix_def)
  have k: "get_default example_state_window ''most_recent'' (PInt 100) = PInt 2"
    by (simp add: get_default_def example_state_window_def)
  from diversity_is_population_sd [OF l h _ _ _ k, of 3 2 "[100, 7, 0, 10, 2, 20]"]
  have "all_para l = PArray \<lparr>shape = [2, 2], data = map Num [0, 10, 2, 20]\<rparr>
      \<and> shape (param_diversity l) = [2]
      \<and> (\<forall>i < 2. data (param_diversity l) ! i
             = Num (population_sd (map (\<lambda>r. [100, 7, 0, 10, 2, 20] ! (r * 2 + i)) [1..<3])))"
    by (simp add: Let_def)
  then have "all_para l = matrix 2 2 [0, 10, 2, 20]"
    and "shape (param_diversity l) = [2]"
    and "data (param_diversity l) ! 0 = Num (population_sd [0, 2])"
    and "data (param_diversity l) ! 1 = Num (population_sd [10, 20])"
    by (simp_all add: matrix_def upt_conv_Cons eval_nat_numeral)
  with l h show ?thesis by (intro exI [of _ l]) (simp add: matrix_def)
qed

text \<open>
  C8 as stated fails. The parent pool of the example state is its history; column 0 of
  the window holds 0 and 2, whose sample standard deviation is the square root of 2, and
  the report has 1 there, the population standard deviation.
\<close>

theorem diversity_counterexample:
  "read_state stub_lib example_state = Inr example_vars
   \<and> all_para example_vars = matrix 2 2 [0, 10, 2, 20]
   \<and> data (param_diversity example_vars) ! 0 = Num 1
   \<and> sample_sd [0, 2] = sqrt 2
   \<and> population_sd [0, 2] = 1
   \<and> Num 1 \<noteq> Num (sample_sd [0, 2])"
  by (simp add: example_read example_vars_def sample_sd_def population_sd_def arith_mean_def)

lemma concat_utf8_chars: "concat (utf8_chars cs) = cs"
  by (induction cs rule: utf8_chars.induct) simp_all

lemma slice_from_zero:
  "slice_from 0 x = Inr y \<Longrightarrow> y = x"
  by (cases x)
    (auto simp: slice_from_def slice_start_def Let_def concat_utf8_chars split: list.splits)

text \<open>
  C10. When the state sets \<^verbatim>\<open>most_recent\<close> to 0, the window is the whole history
  (\<^verbatim>\<open>all_para\<close>, or the parent pool when the state has none), and the diversity report is
  the standard deviation over all of it.
\<close>

theorem window_zero_is_whole_history:
  assumes "read_state lib st = Inr l" and "st ''most_recent'' = Some (PInt 0)"
  shows "history st = Some (all_para l) \<and> np_std lib (all_para l) = Inr (param_diversity l)"
proof -
  from read_state_window [OF assms(1)] obtain pp start where
    pp: "st ''parent_pool'' = Some pp"
    and mr: "most_recent l = get_default st ''most_recent'' (PInt 100)"
    and ni: "neg_index (most_recent l) = Inr start"
    and sl: "slice_from start (get_default st ''all_para'' pp) = Inr (all_para l)"
    and sd: "np_std lib (all_para l) = Inr (param_diversity l)"
    by blast
  have "start = 0"
    using ni mr assms(2) by (simp add: neg_index_def get_default_def)
  with sl have "all_para l = get_default st ''all_para'' pp"
    using slice_from_zero by blast
  then show ?thesis
    using history_get_default [where st = st, OF pp] sd by simp
qed

lemma example_zero_read:
  "\<exists>l. read_state stub_lib example_state_zero = Inr l"
  by (simp add: read_state_def example_state_zero_def example_state_def state_simps)

theorem window_zero_is_whole_history_witness:
  "\<exists>l. read_state stub_lib example_state_zero = Inr l
      \<and> example_state_zero ''most_recent'' = Some (PInt 0)
      \<and> all_para l = matrix 3 2 [100, 7, 0, 10, 2, 20]
      \<and> np_std stub_lib (matrix 3 2 [100, 7, 0, 10, 2, 20]) = Inr (param_diversity l)"
proof -
  from example_zero_read obtain l where l: "read_state stub_lib example_state_zero = Inr l"
    by blast
  have z: "example_state_zero ''most_recent'' = Some (PInt 0)"
    by (simp add: example_state_zero_def)
  have h: "history example_state_zero = Some (matrix 3 2 [100, 7, 0, 10, 2, 20])"
    by (simp add: history_def example_state_zero_def)
  from window_zero_is_whole_history [OF l z] h l z show ?thesis
    by (intro exI [of _ l]) auto
qed

end
